theory Spec2Isabelle
  imports
    Complex_Main
    "HOL-Library.Char_ord"
    "HOL-Library.List_Lexorder"
    "HOL-Library.Multiset"
begin

section \<open>Strings and paths\<close>

text \<open>
  Strings are byte strings. \<open>str.lower\<close> and \<open>str.upper\<close> are modelled on the ASCII
  letters and leave every other character alone; no character outside ASCII lowercases
  to a letter of the supported extensions.
\<close>

definition lower_char :: "char \<Rightarrow> char" where
  "lower_char c =
     (case map_of (zip ''ABCDEFGHIJKLMNOPQRSTUVWXYZ'' ''abcdefghijklmnopqrstuvwxyz'') c of
        Some d \<Rightarrow> d
      | None \<Rightarrow> c)"

definition upper_char :: "char \<Rightarrow> char" where
  "upper_char c =
     (case map_of (zip ''abcdefghijklmnopqrstuvwxyz'' ''ABCDEFGHIJKLMNOPQRSTUVWXYZ'') c of
        Some d \<Rightarrow> d
      | None \<Rightarrow> c)"

definition str_lower :: "string \<Rightarrow> string" where
  "str_lower s = map lower_char s"

definition str_upper :: "string \<Rightarrow> string" where
  "str_upper s = map upper_char s"

text \<open>\<open>s.lstrip(chars)\<close>: drop the longest prefix made of characters of \<open>chars\<close>.\<close>

definition str_lstrip :: "string \<Rightarrow> string \<Rightarrow> string" where
  "str_lstrip chars s = dropWhile (\<lambda>c. c \<in> set chars) s"

text \<open>
  A \<open>pathlib\<close> path is its tuple of parts (\<open>PurePosixPath.parts\<close>); an absolute path
  starts with its root, the part \<open>''/''\<close> or \<open>''//''\<close>. Paths are compared part by part,
  each part as a string, which is the lexicographic order on \<open>string list\<close>. Python
  compares strings by code point; a name is modelled by its UTF-8 bytes, whose order is
  the same for every name that is well-formed UTF-8.
\<close>

type_synonym path = "string list"

fun join_parts :: "string list \<Rightarrow> string" where
  "join_parts [] = []"
| "join_parts [x] = x"
| "join_parts (x # y # ys) = x @ ''/'' @ join_parts (y # ys)"

definition str_path :: "path \<Rightarrow> string" where
  "str_path p =
     (case p of
        [] \<Rightarrow> ''.''
      | a # rest \<Rightarrow> if a = ''/'' \<or> a = ''//'' then a @ join_parts rest else join_parts p)"

definition path_name :: "path \<Rightarrow> string" where
  "path_name p = (if p = [] \<or> p = [''/''] \<or> p = [''//''] then [] else last p)"

text \<open>\<open>name.rfind('.')\<close>: the index of the last dot, \<open>-1\<close> when there is none.\<close>

definition rfind_dot :: "string \<Rightarrow> int" where
  "rfind_dot s =
     (if CHR ''.'' \<in> set s
      then int (length s) - 1 - int (length (takeWhile (\<lambda>c. c \<noteq> CHR ''.'') (rev s)))
      else - 1)"

text \<open>
  \<open>PurePath.suffix\<close>: with \<open>name\<close> the name of the path, \<open>name[i:]\<close> for
  \<open>i = name.rfind('.')\<close> when \<open>0 < i < len(name) - 1\<close>, the empty string otherwise.
\<close>

definition name_suffix :: "string \<Rightarrow> string" where
  "name_suffix name =
     (let i = rfind_dot name
      in if 0 < i \<and> i < int (length name) - 1 then drop (nat i) name else [])"

definition path_suffix :: "path \<Rightarrow> string" where
  "path_suffix p = name_suffix (path_name p)"

text \<open>\<open>os.path.basename\<close>: what follows the last slash.\<close>

definition basename :: "string \<Rightarrow> string" where
  "basename s = rev (takeWhile (\<lambda>c. c \<noteq> CHR ''/'') (rev s))"

section \<open>Exceptions\<close>

datatype exn =
    FileNotFoundError
  | NotADirectoryError
  | PermissionError
  | RuntimeError
  | CalledProcessError int
  | JSONDecodeError
  | KeyError string
  | TypeError
  | AttributeError

text \<open>
  A call that reads the file system returns \<open>Inr\<close> of its value or raises: \<open>Inl\<close> of the
  exception. \<open>and_then m f\<close> is \<open>m\<close> followed by \<open>f\<close> on what \<open>m\<close> returned; an
  exception of \<open>m\<close> goes through, since nothing catches it.
\<close>

definition and_then :: "exn + 'a \<Rightarrow> ('a \<Rightarrow> exn + 'b) \<Rightarrow> exn + 'b" where
  "and_then m f = (case m of Inl e \<Rightarrow> Inl e | Inr x \<Rightarrow> f x)"

section \<open>The file system\<close>

datatype entry_kind = RegularFile | Subdirectory | Special

text \<open>
  What is at a path: a file (anything that is not a directory), a directory with the
  names and kinds of its entries, or a directory that may not be listed.
\<close>

datatype node = File | Dir "(string \<times> entry_kind) list" | UnlistableDir

text \<open>
  What \<open>os.stat\<close> says of a path: nothing is there (\<open>ENOENT\<close>, \<open>ENOTDIR\<close>), a
  directory on the way may not be searched (\<open>EACCES\<close>), or what is there.
\<close>

datatype stat_result = NoEntry | AccessDenied | Entry node

text \<open>
  What the program reads of the file system. \<open>expanduser fs folder\<close> is
  \<open>Path(folder).expanduser()\<close>, which raises \<open>RuntimeError\<close> when the home directory of
  a leading \<open>~\<close> or \<open>~user\<close> cannot be determined. \<open>stat fs p\<close> is the result of
  \<open>os.stat\<close> on \<open>p\<close>, and \<open>pixmap_loads fs s\<close> says whether \<open>QPixmap(s)\<close> decodes to a
  non-null pixmap.
\<close>

record filesystem =
  expanduser :: "string \<Rightarrow> exn + path"
  stat :: "path \<Rightarrow> stat_result"
  pixmap_loads :: "string \<Rightarrow> bool"

text \<open>
  \<open>Path.exists\<close> and \<open>Path.is_dir\<close> answer \<open>False\<close> when nothing is there and raise
  \<open>PermissionError\<close> when \<open>os.stat\<close> is denied. \<open>Path.iterdir\<close> lists a directory and
  raises when the path is not a directory that may be listed.
\<close>

definition path_exists :: "filesystem \<Rightarrow> path \<Rightarrow> exn + bool" where
  "path_exists fs p =
     (case stat fs p of
        NoEntry \<Rightarrow> Inr False
      | AccessDenied \<Rightarrow> Inl PermissionError
      | Entry nd \<Rightarrow> Inr True)"

definition is_dir :: "filesystem \<Rightarrow> path \<Rightarrow> exn + bool" where
  "is_dir fs p =
     (case stat fs p of
        NoEntry \<Rightarrow> Inr False
      | AccessDenied \<Rightarrow> Inl PermissionError
      | Entry nd \<Rightarrow>
          (case nd of File \<Rightarrow> Inr False | Dir es \<Rightarrow> Inr True | UnlistableDir \<Rightarrow> Inr True))"

definition iterdir :: "filesystem \<Rightarrow> path \<Rightarrow> exn + path list" where
  "iterdir fs p =
     (case stat fs p of
        NoEntry \<Rightarrow> Inl FileNotFoundError
      | AccessDenied \<Rightarrow> Inl PermissionError
      | Entry nd \<Rightarrow>
          (case nd of
             File \<Rightarrow> Inl NotADirectoryError
           | Dir es \<Rightarrow> Inr (map (\<lambda>e. p @ [fst e]) es)
           | UnlistableDir \<Rightarrow> Inl PermissionError))"

section \<open>Configuration\<close>

definition SUPPORTED_EXTS :: "string list" where
  "SUPPORTED_EXTS = [''.jpg'', ''.jpeg'', ''.png'', ''.webp'', ''.bmp'', ''.gif'']"

definition BORDER_COLOR :: string where
  "BORDER_COLOR = ''color4''"

section \<open>Image discovery\<close>

text \<open>
  Nothing in \<open>find_images\<close> catches an exception. In \<open>not p.exists() or not p.is_dir()\<close>
  the second test runs only when the first says that the path exists.
\<close>

definition find_images :: "filesystem \<Rightarrow> string \<Rightarrow> exn + string list" where
  "find_images fs folder =
     and_then (expanduser fs folder) (\<lambda>p.
     and_then (path_exists fs p) (\<lambda>there.
       if \<not> there then Inr [] else
     and_then (is_dir fs p) (\<lambda>dir.
       if \<not> dir then Inr [] else
     and_then (iterdir fs p) (\<lambda>children.
       Inr (map str_path
              (filter (\<lambda>f. str_lower (path_suffix f) \<in> set SUPPORTED_EXTS)
                 (sort children)))))))"

text \<open>
  The contract of discovery in the specification's words, for comparison with
  \<open>find_images\<close>: a name has a supported extension when it is a non-empty stem, a dot
  and an extension that is, in lower case, one of the six; \<open>discovered\<close> keeps the
  entries of the directory whose kind passes \<open>keep\<close> and that have such a name, by
  ascending name, is empty when nothing or a file is at the path, and raises what the
  home expansion, the look at the path or the listing raises.
\<close>

definition is_regular :: "entry_kind \<Rightarrow> bool" where
  "is_regular k = (k = RegularFile)"

definition any_kind :: "entry_kind \<Rightarrow> bool" where
  "any_kind k = True"

definition has_image_extension :: "string \<Rightarrow> bool" where
  "has_image_extension name =
     (\<exists>stem ext. name = stem @ ''.'' @ ext \<and> stem \<noteq> [] \<and>
        str_lower ext \<in> {''jpg'', ''jpeg'', ''png'', ''webp'', ''bmp'', ''gif''})"

definition discovered ::
  "(entry_kind \<Rightarrow> bool) \<Rightarrow> filesystem \<Rightarrow> string \<Rightarrow> exn + string list" where
  "discovered keep fs folder =
     (case expanduser fs folder of
        Inl e \<Rightarrow> Inl e
      | Inr p \<Rightarrow>
          (case stat fs p of
             NoEntry \<Rightarrow> Inr []
           | AccessDenied \<Rightarrow> Inl PermissionError
           | Entry nd \<Rightarrow>
               (case nd of
                  File \<Rightarrow> Inr []
                | UnlistableDir \<Rightarrow> Inl PermissionError
                | Dir es \<Rightarrow>
                    Inr (map (\<lambda>n. str_path (p @ [n]))
                           (sort (filter has_image_extension
                                    (map fst (filter (\<lambda>e. keep (snd e)) es))))))))"

section \<open>The thumbnail grid\<close>

text \<open>
  A push button: its text, whether it is enabled, its tool tip, the size of its icon
  (\<open>None\<close>: no icon), its fixed size (both sides; \<open>None\<close>: not fixed) and the path its
  click handler passes to \<open>on_select\<close> (\<open>None\<close>: no handler). Cursor and style sheet are
  left out.
\<close>

record button =
  label :: string
  enabled :: bool
  tooltip :: string
  icon_size :: "int option"
  fixed_size :: "int option"
  clicked :: "string option"

text \<open>
  The widget: the directory it shows, the images of the last discovery, the items of its
  grid layout (a button with its row and column), its size, and the margins and spacing
  of the grid layout.
\<close>

record wallpicker =
  image_dir :: string
  images :: "string list"
  grid :: "(button \<times> nat \<times> nat) list"
  width :: int
  height :: int
  margin_left :: int
  margin_right :: int
  margin_top :: int
  margin_bottom :: int
  spacing :: int

text \<open>\<open>clear_grid\<close>: take the first item until none is left.\<close>

fun clear_grid :: "(button \<times> nat \<times> nat) list \<Rightarrow> (button \<times> nat \<times> nat) list" where
  "clear_grid [] = []"
| "clear_grid (item # items) = clear_grid items"

text \<open>
  \<open>math.ceil(math.sqrt(n))\<close> and \<open>math.ceil(n / cols)\<close>, with the square root and the
  quotient taken in the reals. Python computes both in double precision, where they
  round to the same integers for every \<open>n < 2 ^ 52\<close>, far beyond the length of a
  directory listing.
\<close>

definition grid_cols :: "nat \<Rightarrow> nat" where
  "grid_cols n = nat \<lceil>sqrt (real n)\<rceil>"

definition grid_rows :: "nat \<Rightarrow> nat" where
  "grid_rows n = nat \<lceil>real n / real (grid_cols n)\<rceil>"

definition available_w :: "wallpicker \<Rightarrow> int" where
  "available_w self = width self - (margin_left self + margin_right self)"

definition available_h :: "wallpicker \<Rightarrow> int" where
  "available_h self = height self - (margin_top self + margin_bottom self)"

definition thumb_side_w :: "wallpicker \<Rightarrow> nat \<Rightarrow> int" where
  "thumb_side_w self cols = (available_w self - (int cols - 1) * spacing self) div int cols"

definition thumb_side_h :: "wallpicker \<Rightarrow> nat \<Rightarrow> int" where
  "thumb_side_h self rows = (available_h self - (int rows - 1) * spacing self) div int rows"

definition thumb_side :: "wallpicker \<Rightarrow> nat \<Rightarrow> int" where
  "thumb_side self n =
     min (thumb_side_w self (grid_cols n)) (thumb_side_h self (grid_rows n))"

definition placeholder_button :: "string \<Rightarrow> button" where
  "placeholder_button dir =
     \<lparr>label = ''No images found'' @ [CHR 0x0A] @ dir, enabled = False, tooltip = [],
      icon_size = None, fixed_size = None, clicked = None\<rparr>"

definition thumb_button :: "filesystem \<Rightarrow> int \<Rightarrow> string \<Rightarrow> button" where
  "thumb_button fs side imgpath =
     \<lparr>label = [], enabled = True, tooltip = basename imgpath,
      icon_size = (if pixmap_loads fs imgpath then Some side else None),
      fixed_size = Some side, clicked = Some imgpath\<rparr>"

text \<open>
  \<open>populate\<close> returns the widget as it leaves it. An exception of \<open>find_images\<close> leaves
  \<open>populate\<close> before anything of the widget is touched.
\<close>

definition populate :: "filesystem \<Rightarrow> wallpicker \<Rightarrow> exn + wallpicker" where
  "populate fs self =
     and_then (find_images fs (image_dir self)) (\<lambda>imgs.
       let n = length imgs
       in if n = 0
          then Inr (self\<lparr>images := imgs,
                 grid := clear_grid (grid self) @ [(placeholder_button (image_dir self), 0, 0)]\<rparr>)
          else
            let cols = grid_cols n; side = thumb_side self n
            in Inr (self\<lparr>images := imgs,
                 grid := clear_grid (grid self) @
                   map (\<lambda>(idx, imgpath). (thumb_button fs side imgpath, idx div cols, idx mod cols))
                     (enumerate 0 imgs)\<rparr>))"

definition refresh :: "filesystem \<Rightarrow> wallpicker \<Rightarrow> exn + wallpicker" where
  "refresh fs self = populate fs self"

section \<open>External programs\<close>

type_synonym cmd = "string list"

text \<open>
  What running a command does: the spawn raises, or the process exits with a return
  code, or it never exits.
\<close>

datatype proc = SpawnFails exn | Exits int | NeverExits

datatype json =
    JNull
  | JBool bool
  | JNum int
  | JStr string
  | JArr "json list"
  | JObj "(string \<times> json) list"

text \<open>
  The palette file \<open>~/.cache/wal/colors.json\<close>: the home directory cannot be
  determined, a directory on the way to the file may not be searched, the file is not
  there, it is there but cannot be opened, it opens but is not JSON, or it holds the
  document that \<open>json.load\<close> returns (an object is the list of its items, keys
  distinct).
\<close>

datatype palette_file = NoHome | Inaccessible | Absent | Unreadable | Malformed | Document json

record environment =
  procs :: "cmd \<Rightarrow> proc"
  wal_colors :: palette_file

text \<open>
  A call returns a value, raises, or never returns. Every call also leaves the list of
  what it did: the commands it tried to start and the lines it printed.
\<close>

datatype 'a outcome = Returns 'a | Raises exn | Hangs

datatype event = Exec cmd | Print string "exn option"

type_synonym 'a run = "'a outcome \<times> event list"

text \<open>\<open>seq m f\<close>: the statements \<open>m\<close>, then \<open>f\<close> on what \<open>m\<close> returned.\<close>

definition seq :: "'a run \<Rightarrow> ('a \<Rightarrow> 'b run) \<Rightarrow> 'b run" where
  "seq m f =
     (case m of
        (Returns x, t) \<Rightarrow> (case f x of (r, t') \<Rightarrow> (r, t @ t'))
      | (Raises e, t) \<Rightarrow> (Raises e, t)
      | (Hangs, t) \<Rightarrow> (Hangs, t))"

text \<open>\<open>try: m except <caught> as e: h e\<close>.\<close>

definition try_except :: "'a run \<Rightarrow> (exn \<Rightarrow> bool) \<Rightarrow> (exn \<Rightarrow> 'a run) \<Rightarrow> 'a run" where
  "try_except m caught h =
     (case m of
        (Raises e, t) \<Rightarrow>
          if caught e then (case h e of (r, t') \<Rightarrow> (r, t @ t')) else (Raises e, t)
      | (Returns x, t) \<Rightarrow> (Returns x, t)
      | (Hangs, t) \<Rightarrow> (Hangs, t))"

text \<open>\<open>subprocess.Popen(cmd)\<close>: start the process and go on without waiting.\<close>

definition Popen :: "environment \<Rightarrow> cmd \<Rightarrow> unit run" where
  "Popen env c =
     (case procs env c of
        SpawnFails e \<Rightarrow> (Raises e, [Exec c])
      | Exits rc \<Rightarrow> (Returns (), [Exec c])
      | NeverExits \<Rightarrow> (Returns (), [Exec c]))"

text \<open>
  \<open>subprocess.run(cmd, check=...)\<close>: start the process and wait for it to exit; there
  is no timeout. With \<open>check\<close>, a return code other than 0 raises.
\<close>

definition subprocess_run :: "environment \<Rightarrow> cmd \<Rightarrow> bool \<Rightarrow> unit run" where
  "subprocess_run env c check =
     (case procs env c of
        SpawnFails e \<Rightarrow> (Raises e, [Exec c])
      | Exits rc \<Rightarrow>
          if check \<and> rc \<noteq> 0 then (Raises (CalledProcessError rc), [Exec c])
          else (Returns (), [Exec c])
      | NeverExits \<Rightarrow> (Hangs, [Exec c]))"

definition run_cmd :: "environment \<Rightarrow> cmd \<Rightarrow> bool run" where
  "run_cmd env c =
     try_except (seq (subprocess_run env c True) (\<lambda>_. (Returns True, [])))
       (\<lambda>e. True) (\<lambda>e. (Returns False, []))"

definition set_wallpaper_wayland :: "environment \<Rightarrow> string \<Rightarrow> bool run" where
  "set_wallpaper_wayland env image_path =
     seq (run_cmd env [''swww'', ''img'', image_path, ''--output'', ''all'']) (\<lambda>ok.
       if ok then (Returns True, []) else
     seq (run_cmd env [''hyprpaper'', ''--set'', image_path]) (\<lambda>ok.
       if ok then (Returns True, []) else
     seq (run_cmd env [''swaybg'', ''-i'', image_path]) (\<lambda>ok.
       if ok then (Returns True, []) else
     seq (run_cmd env [''feh'', ''--bg-scale'', image_path]) (\<lambda>ok.
       if ok then (Returns True, []) else (Returns False, [])))))"

text \<open>
  \<open>Path.home() / ''.cache'' / ''wal'' / ''colors.json''\<close> and \<open>wal_colors.exists()\<close>:
  \<open>Path.home\<close> raises \<open>RuntimeError\<close> when the home directory cannot be determined,
  and \<open>exists\<close> raises \<open>PermissionError\<close> when \<open>os.stat\<close> is denied.
\<close>

definition palette_exists :: "palette_file \<Rightarrow> bool run" where
  "palette_exists f =
     (case f of
        NoHome \<Rightarrow> (Raises RuntimeError, [])
      | Inaccessible \<Rightarrow> (Raises PermissionError, [])
      | Absent \<Rightarrow> (Returns False, [])
      | Unreadable \<Rightarrow> (Returns True, [])
      | Malformed \<Rightarrow> (Returns True, [])
      | Document d \<Rightarrow> (Returns True, []))"

text \<open>\<open>open(wal_colors)\<close> and \<open>json.load\<close>.\<close>

definition json_load :: "palette_file \<Rightarrow> json run" where
  "json_load f =
     (case f of
        NoHome \<Rightarrow> (Raises RuntimeError, [])
      | Inaccessible \<Rightarrow> (Raises PermissionError, [])
      | Absent \<Rightarrow> (Raises FileNotFoundError, [])
      | Unreadable \<Rightarrow> (Raises PermissionError, [])
      | Malformed \<Rightarrow> (Raises JSONDecodeError, [])
      | Document d \<Rightarrow> (Returns d, []))"

text \<open>\<open>v[key]\<close> for a string key: only an object can be indexed by one.\<close>

definition getitem :: "json \<Rightarrow> string \<Rightarrow> json run" where
  "getitem v key =
     (case v of
        JObj items \<Rightarrow>
          (case map_of items key of
             Some x \<Rightarrow> (Returns x, [])
           | None \<Rightarrow> (Raises (KeyError key), []))
      | _ \<Rightarrow> (Raises TypeError, []))"

text \<open>\<open>v.lstrip(chars)\<close>: only a string has the method.\<close>

definition lstrip :: "json \<Rightarrow> string \<Rightarrow> string run" where
  "lstrip v chars =
     (case v of
        JStr s \<Rightarrow> (Returns (str_lstrip chars s), [])
      | _ \<Rightarrow> (Raises AttributeError, []))"

text \<open>
  The existence test comes before the \<open>try\<close>: what it raises is not caught. Everything
  after it is inside the \<open>try\<close>, whose handler catches every exception and prints it.
\<close>

definition set_hyprland_border_from_wal :: "environment \<Rightarrow> unit run" where
  "set_hyprland_border_from_wal env =
     seq (palette_exists (wal_colors env)) (\<lambda>there.
       if \<not> there then (Returns (), [])
       else
         try_except
           (seq (json_load (wal_colors env)) (\<lambda>data.
            seq (getitem data ''colors'') (\<lambda>colors.
            seq (getitem colors BORDER_COLOR) (\<lambda>slot.
            seq (lstrip slot ''#'') (\<lambda>hexcol.
              let col = ''0x'' @ str_upper hexcol
              in subprocess_run env [''hyprctl'', ''keyword'', ''col.active_border'', col] False)))))
           (\<lambda>e. True)
           (\<lambda>e. (Returns (), [Print ''Failed to set Hyprland border color:'' (Some e)])))"

definition on_select :: "environment \<Rightarrow> string \<Rightarrow> unit run" where
  "on_select env path =
     seq (Popen env [''wal'', ''-i'', path]) (\<lambda>_.
     seq (try_except (Popen env [''walcord''])
            (\<lambda>e. e = FileNotFoundError) (\<lambda>e. (Returns (), []))) (\<lambda>_.
     seq (set_wallpaper_wayland env path) (\<lambda>_.
     seq (set_hyprland_border_from_wal env) (\<lambda>_.
     try_except (Popen env [''spicetify'', ''apply''])
       (\<lambda>e. e = FileNotFoundError)
       (\<lambda>e. (Returns (), [Print ''Spicetify not installed, skipping...'' None]))))))"

section \<open>Terms of the specification about external programs\<close>

text \<open>
  The four wallpaper setters in the order \<open>set_wallpaper_wayland\<close> runs them.
\<close>

definition backends :: "string \<Rightarrow> cmd list" where
  "backends image_path =
     [[''swww'', ''img'', image_path, ''--output'', ''all''],
      [''hyprpaper'', ''--set'', image_path],
      [''swaybg'', ''-i'', image_path],
      [''feh'', ''--bg-scale'', image_path]]"

text \<open>
  A command succeeds when its process exits with code 0; it fails when it cannot be
  started or exits with another code. A process that never exits does neither.
\<close>

definition succeeds :: "environment \<Rightarrow> cmd \<Rightarrow> bool" where
  "succeeds env c = (procs env c = Exits 0)"

definition fails :: "environment \<Rightarrow> cmd \<Rightarrow> bool" where
  "fails env c =
     (case procs env c of SpawnFails e \<Rightarrow> True | Exits rc \<Rightarrow> rc \<noteq> 0 | NeverExits \<Rightarrow> False)"

text \<open>
  Ordered fallback as a loop over a list of commands: run each in turn and stop at the
  first that does not fail.
\<close>

fun try_each :: "environment \<Rightarrow> cmd list \<Rightarrow> bool run" where
  "try_each env [] = (Returns False, [])"
| "try_each env (c # cs) =
     (if succeeds env c then (Returns True, [Exec c])
      else if fails env c then (case try_each env cs of (r, t) \<Rightarrow> (r, Exec c # t))
      else (Hangs, [Exec c]))"

text \<open>The commands a run tried to start, in order.\<close>

fun commands :: "event list \<Rightarrow> cmd list" where
  "commands [] = []"
| "commands (Exec c # t) = c # commands t"
| "commands (Print s e # t) = commands t"

text \<open>
  The designated colour slot of the palette file: the value under \<open>BORDER_COLOR\<close> in
  the object under \<open>colors\<close> of a document that is an object; \<open>None\<close> when the file
  holds no document or the document has no such slot.
\<close>

definition palette_slot :: "palette_file \<Rightarrow> json option" where
  "palette_slot f =
     (case f of
        Document (JObj items) \<Rightarrow>
          (case map_of items ''colors'' of
             Some (JObj colors) \<Rightarrow> map_of colors BORDER_COLOR
           | _ \<Rightarrow> None)
      | _ \<Rightarrow> None)"

section \<open>Example inputs\<close>

text \<open>
  A file system with a directory \<open>/w\<close> holding \<open>b.png\<close>, \<open>A.JPG\<close> and \<open>c.txt\<close>, a
  directory \<open>/private\<close> that may not be listed and a directory \<open>/locked\<close> that may not
  be searched, where no user \<open>nosuchuser\<close> exists; and a file system with a directory
  \<open>/w\<close> holding the file \<open>a.png\<close> and the subdirectory \<open>old.png\<close>.
\<close>

definition example_fs :: filesystem where
  "example_fs =
     \<lparr>expanduser = (\<lambda>s. if s = ''/w'' then Inr [''/'', ''w'']
                        else if s = ''/private'' then Inr [''/'', ''private'']
                        else if s = ''/locked/pics'' then Inr [''/'', ''locked'', ''pics'']
                        else if s = ''~nosuchuser/pics'' then Inl RuntimeError
                        else Inr [''/'', ''missing'']),
      stat = (\<lambda>p. if p = [''/'', ''w'']
                  then Entry (Dir [(''b.png'', RegularFile), (''A.JPG'', RegularFile),
                                   (''c.txt'', RegularFile)])
                  else if p = [''/'', ''private''] then Entry UnlistableDir
                  else if p = [''/'', ''locked'', ''pics''] then AccessDenied
                  else NoEntry),
      pixmap_loads = (\<lambda>s. True)\<rparr>"

definition subdir_fs :: filesystem where
  "subdir_fs =
     \<lparr>expanduser = (\<lambda>s. if s = ''/w'' then Inr [''/'', ''w''] else Inr [''/'', ''missing'']),
      stat = (\<lambda>p. if p = [''/'', ''w'']
                  then Entry (Dir [(''old.png'', Subdirectory), (''a.png'', RegularFile)])
                  else NoEntry),
      pixmap_loads = (\<lambda>s. s = ''/w/a.png'')\<rparr>"

text \<open>
  The widget on a 1920 by 1080 screen: a square of side 540, margins and spacing of 4.
\<close>

definition example_picker :: "string \<Rightarrow> wallpicker" where
  "example_picker dir =
     \<lparr>image_dir = dir, images = [], grid = [], width = 540, height = 540,
      margin_left = 4, margin_right = 4, margin_top = 4, margin_bottom = 4, spacing = 4\<rparr>"

text \<open>
  Environments by the programs installed: a program behaves as the table says, and one
  the table leaves out is not installed.
\<close>

definition installed :: "(string \<times> proc) list \<Rightarrow> cmd \<Rightarrow> proc" where
  "installed table c =
     (case c of
        [] \<Rightarrow> SpawnFails FileNotFoundError
      | prog # args \<Rightarrow>
          (case map_of table prog of
             Some r \<Rightarrow> r
           | None \<Rightarrow> SpawnFails FileNotFoundError))"

definition example_palette :: json where
  "example_palette =
     JObj [(''wallpaper'', JStr ''/w/a.png''),
           (''colors'', JObj [(''color0'', JStr ''#101010''), (''color4'', JStr ''#aabbcc'')])]"

text \<open>Everything is installed but \<open>wal\<close>.\<close>

definition no_wal_env :: environment where
  "no_wal_env =
     \<lparr>procs = installed [(''walcord'', Exits 0), (''swww'', Exits 0), (''hyprpaper'', Exits 0),
                          (''swaybg'', NeverExits), (''feh'', Exits 0), (''hyprctl'', Exits 0),
                          (''spicetify'', Exits 0)],
      wal_colors = Document example_palette\<rparr>"

text \<open>
  \<open>wal\<close>, \<open>hyprpaper\<close>, \<open>swaybg\<close> (which shows the wallpaper until it is killed) and
  \<open>hyprctl\<close> are installed, \<open>swww\<close> is installed but its daemon is not running; neither
  \<open>walcord\<close> nor \<open>spicetify\<close> is installed.
\<close>

definition hypr_env :: environment where
  "hypr_env =
     \<lparr>procs = installed [(''wal'', Exits 0), (''swww'', Exits 1), (''hyprpaper'', Exits 0),
                          (''swaybg'', NeverExits), (''hyprctl'', Exits 0)],
      wal_colors = Document example_palette\<rparr>"

text \<open>Nothing is installed and there is no palette file.\<close>

definition bare_env :: environment where
  "bare_env = \<lparr>procs = installed [], wal_colors = Absent\<rparr>"

text \<open>The palette file lies in a directory that may not be searched.\<close>

definition locked_cache_env :: environment where
  "locked_cache_env =
     \<lparr>procs = installed [(''hyprctl'', Exits 0)], wal_colors = Inaccessible\<rparr>"

text \<open>A palette file whose slot \<open>color4\<close> holds a number.\<close>

definition number_slot_env :: environment where
  "number_slot_env =
     \<lparr>procs = installed [(''hyprctl'', Exits 0)],
      wal_colors = Document (JObj [(''colors'', JObj [(''color4'', JNum 4)])])\<rparr>"

section \<open>The shape of the grid\<close>

lemma grid_cols_unique:
  assumes up: "n \<le> c * c" and low: "(c - 1) * (c - 1) < n"
  shows "grid_cols n = c"
proof -
  have cpos: "0 < c"
    using up low by (cases c) auto
  have "real ((c - 1) * (c - 1)) < real n"
    using low by (simp only: of_nat_less_iff)
  then have "(real (c - 1))\<^sup>2 < real n"
    by (simp add: power2_eq_square)
  then have "real (c - 1) < sqrt (real n)"
    by (rule real_less_rsqrt)
  then have a: "of_int (int c) - 1 < sqrt (real n)"
    using cpos by simp
  have "real n \<le> real (c * c)"
    using up by (simp only: of_nat_le_iff)
  then have "real n \<le> (real c)\<^sup>2"
    by (simp add: power2_eq_square)
  then have "sqrt (real n) \<le> real c"
    by (rule real_le_lsqrt[rotated]) simp
  then have b: "sqrt (real n) \<le> of_int (int c)"
    by simp
  have "\<lceil>sqrt (real n)\<rceil> = int c"
    using a b by (rule ceiling_unique)
  then show ?thesis
    by (simp add: grid_cols_def)
qed

lemma grid_cols_upper: "n \<le> grid_cols n * grid_cols n"
proof -
  have "sqrt (real n) \<le> real (grid_cols n)"
    unfolding grid_cols_def by linarith
  then have "real n \<le> (real (grid_cols n))\<^sup>2"
    by (rule sqrt_le_D)
  then have "real n \<le> real (grid_cols n * grid_cols n)"
    by (simp add: power2_eq_square)
  then show ?thesis by linarith
qed

lemma grid_cols_pos: "0 < n \<Longrightarrow> 0 < grid_cols n"
  using grid_cols_upper [of n] by (cases "grid_cols n") auto

lemma grid_cols_lower:
  assumes "0 < n"
  shows "(grid_cols n - 1) * (grid_cols n - 1) < n"
proof -
  let ?c = "grid_cols n"
  have cpos: "0 < ?c" using assms by (rule grid_cols_pos)
  have "real_of_int \<lceil>sqrt (real n)\<rceil> - 1 < sqrt (real n)"
    by linarith
  moreover have "real_of_int \<lceil>sqrt (real n)\<rceil> = real ?c"
    using cpos by (simp add: grid_cols_def)
  ultimately have "real (?c - 1) < sqrt (real n)"
    using cpos by simp
  then have "(real (?c - 1))\<^sup>2 < (sqrt (real n))\<^sup>2"
    by (intro power_strict_mono) simp_all
  then have "real ((?c - 1) * (?c - 1)) < real n"
    by (simp add: power2_eq_square)
  then show ?thesis
    by (simp only: of_nat_less_iff)
qed

lemma grid_rows_unique:
  assumes cpos: "0 < grid_cols n"
    and up: "n \<le> r * grid_cols n" and low: "(r - 1) * grid_cols n < n"
  shows "grid_rows n = r"
proof -
  let ?c = "grid_cols n"
  have rpos: "0 < r" using up low by (cases r) auto
  have "real ((r - 1) * ?c) < real n"
    using low by (simp only: of_nat_less_iff)
  then have "real (r - 1) * real ?c < real n" by simp
  then have "real (r - 1) < real n / real ?c"
    using cpos by (simp add: pos_less_divide_eq)
  then have a: "of_int (int r) - 1 < real n / real ?c"
    using rpos by simp
  have "real n \<le> real (r * ?c)"
    using up by (simp only: of_nat_le_iff)
  then have "real n \<le> real r * real ?c" by simp
  then have "real n / real ?c \<le> real r"
    using cpos by (simp add: pos_divide_le_eq)
  then have b: "real n / real ?c \<le> of_int (int r)" by simp
  have "\<lceil>real n / real ?c\<rceil> = int r"
    using a b by (rule ceiling_unique)
  then show ?thesis by (simp add: grid_rows_def)
qed

lemma grid_rows_div:
  assumes "0 < n"
  shows "grid_rows n = (n + grid_cols n - 1) div grid_cols n"
proof -
  let ?c = "grid_cols n"
  let ?r = "(n + ?c - 1) div ?c"
  have cpos: "0 < ?c" using assms by (rule grid_cols_pos)
  have "n + ?c - 1 = ?r * ?c + (n + ?c - 1) mod ?c" by simp
  moreover have "(n + ?c - 1) mod ?c < ?c" using cpos by simp
  ultimately have up: "n \<le> ?r * ?c" using cpos by linarith
  have "?r * ?c \<le> n + ?c - 1" by simp
  then have "?r * ?c < n + ?c" using cpos by linarith
  moreover have "0 < ?r" using assms cpos by (simp add: div_greater_zero_iff)
  then have "(?r - 1) * ?c + ?c = ?r * ?c"
    by (cases ?r) simp_all
  ultimately have low: "(?r - 1) * ?c < n" by linarith
  show ?thesis using cpos up low by (rule grid_rows_unique)
qed

lemma grid_rows_upper:
  assumes "0 < n" shows "n \<le> grid_rows n * grid_cols n"
proof -
  let ?c = "grid_cols n"
  have cpos: "0 < ?c" using assms by (rule grid_cols_pos)
  have "n + ?c - 1 = (n + ?c - 1) div ?c * ?c + (n + ?c - 1) mod ?c" by simp
  moreover have "(n + ?c - 1) mod ?c < ?c" using cpos by simp
  ultimately have "n \<le> (n + ?c - 1) div ?c * ?c" using cpos by linarith
  then show ?thesis using assms by (simp add: grid_rows_div)
qed

lemma grid_rows_pos: "0 < n \<Longrightarrow> 0 < grid_rows n"
  using grid_rows_upper [of n] by (cases "grid_rows n") auto

lemma grid_rows_lower:
  assumes "0 < n" shows "(grid_rows n - 1) * grid_cols n < n"
proof -
  let ?c = "grid_cols n"
  let ?r = "(n + ?c - 1) div ?c"
  have cpos: "0 < ?c" using assms by (rule grid_cols_pos)
  have "?r * ?c \<le> n + ?c - 1" by simp
  then have "?r * ?c < n + ?c" using cpos by linarith
  moreover have "0 < ?r" using assms cpos by (simp add: div_greater_zero_iff)
  then have "(?r - 1) * ?c + ?c = ?r * ?c"
    by (cases ?r) simp_all
  ultimately have "(?r - 1) * ?c < n" by linarith
  then show ?thesis using assms by (simp add: grid_rows_div)
qed

lemma grid_rows_le_cols:
  assumes "0 < n" shows "grid_rows n \<le> grid_cols n"
proof (rule ccontr)
  let ?c = "grid_cols n" and ?r = "grid_rows n"
  assume "\<not> ?r \<le> ?c"
  then have "?c \<le> ?r - 1" by simp
  then have "?c * ?c \<le> (?r - 1) * ?c" by (rule mult_le_mono1)
  with grid_rows_lower [OF assms] grid_cols_upper [of n] show False by linarith
qed

lemma grid_cols_le_Suc_rows:
  assumes "0 < n" shows "grid_cols n \<le> grid_rows n + 1"
proof (rule ccontr)
  let ?c = "grid_cols n" and ?r = "grid_rows n"
  assume "\<not> ?c \<le> ?r + 1"
  then have le: "?r \<le> ?c - 1 - 1" and c2: "2 \<le> ?c" by simp_all
  have "?r * ?c \<le> (?c - 1 - 1) * ?c" using le by (rule mult_le_mono1)
  moreover have "(?c - 1 - 1) * ?c \<le> (?c - 1) * (?c - 1)"
  proof -
    obtain k where k: "?c = Suc (Suc k)" using c2 by (metis add_2_eq_Suc le_Suc_ex)
    show ?thesis unfolding k by simp
  qed
  ultimately show False
    using grid_cols_lower [OF assms] grid_rows_upper [OF assms] by linarith
qed

lemma grid_waste_lt_cols:
  assumes "0 < n" shows "grid_rows n * grid_cols n - n < grid_cols n"
proof -
  let ?c = "grid_cols n" and ?r = "grid_rows n"
  have "0 < ?r" using assms by (rule grid_rows_pos)
  then have "(?r - 1) * ?c + ?c = ?r * ?c" by (cases ?r) simp_all
  with grid_rows_lower [OF assms] grid_cols_pos [OF assms] show ?thesis by linarith
qed

lemma near_square_ordered_min:
  assumes n: "0 < n" and le: "r \<le> c" and near: "c \<le> r + 1" and fits: "n \<le> r * c"
  shows "grid_rows n * grid_cols n \<le> r * c"
proof -
  let ?C = "grid_cols n" and ?R = "grid_rows n"
  have big: "?C \<le> c"
  proof (rule ccontr)
    assume "\<not> ?C \<le> c"
    then have "c \<le> ?C - 1" by simp
    moreover from this le have "r \<le> ?C - 1" by simp
    ultimately have "r * c \<le> (?C - 1) * (?C - 1)" by (rule mult_le_mono[rotated])
    with grid_cols_lower [OF n] fits show False by linarith
  qed
  show ?thesis
  proof (cases "?R \<le> r")
    case True
    then show ?thesis using big by (rule mult_le_mono)
  next
    case False
    then have "r \<le> ?R - 1" by simp
    moreover have "c \<le> ?C"
      using False near grid_rows_le_cols [OF n] by linarith
    ultimately have "r * c \<le> (?R - 1) * ?C" by (rule mult_le_mono)
    with grid_rows_lower [OF n] fits show ?thesis by linarith
  qed
qed

lemma near_square_min:
  assumes n: "0 < n" and a: "r \<le> c + 1" and b: "c \<le> r + 1" and fits: "n \<le> r * c"
  shows "grid_rows n * grid_cols n \<le> r * c"
proof (cases "r \<le> c")
  case True
  then show ?thesis using n b fits by (intro near_square_ordered_min) simp_all
next
  case False
  then have "c \<le> r" by simp
  moreover have "n \<le> c * r" using fits by (simp add: mult.commute)
  ultimately have "grid_rows n * grid_cols n \<le> c * r"
    using n a by (intro near_square_ordered_min) simp_all
  then show ?thesis by (simp add: mult.commute)
qed

text \<open>
  The restriction to near-square grids matters: seven cells get a grid of 3 by 3, and a
  grid of 2 rows by 4 columns, whose sides differ by two, holds them in 8 cells.
\<close>

lemma grid_cols_7: "grid_cols 7 = 3"
  by (rule grid_cols_unique) simp_all

lemma grid_rows_7: "grid_rows 7 = 3"
  by (simp add: grid_rows_div grid_cols_7)

lemma seven_cells: "grid_rows 7 * grid_cols 7 = 9 \<and> (7::nat) \<le> 2 * 4 \<and> (2::nat) * 4 < 9"
  by (simp add: grid_cols_7 grid_rows_7)

text \<open>
  Claim C1. For every \<open>N \<ge> 1\<close> the layout's \<open>cols\<close> is the ceiling of the square root
  of \<open>N\<close> (the least \<open>c\<close> with \<open>N \<le> c * c\<close>) and its \<open>rows\<close> is the ceiling of
  \<open>N / cols\<close> (the least \<open>r\<close> with \<open>N \<le> r * cols\<close>). They satisfy
  \<open>rows * cols \<ge> N\<close>, \<open>rows * cols - N < cols\<close> and \<open>cols \<ge> rows\<close>. The grid is
  near-square (\<open>cols \<le> rows + 1\<close>), and among all near-square grids, those whose two
  sides differ by at most one, that hold \<open>N\<close> cells none has fewer cells: the waste
  \<open>rows * cols - N\<close> is minimal.
\<close>

theorem grid_shape:
  assumes "1 \<le> n"
  shows "int (grid_cols n) = \<lceil>sqrt (real n)\<rceil>
       \<and> int (grid_rows n) = \<lceil>real n / real (grid_cols n)\<rceil>
       \<and> (grid_cols n - 1) * (grid_cols n - 1) < n \<and> n \<le> grid_cols n * grid_cols n
       \<and> (grid_rows n - 1) * grid_cols n < n
       \<and> n \<le> grid_rows n * grid_cols n
       \<and> grid_rows n * grid_cols n - n < grid_cols n
       \<and> grid_rows n \<le> grid_cols n
       \<and> grid_cols n \<le> grid_rows n + 1
       \<and> (\<forall>r c. r \<le> c + 1 \<and> c \<le> r + 1 \<and> n \<le> r * c \<longrightarrow> grid_rows n * grid_cols n \<le> r * c)"
proof -
  have n: "0 < n" using assms by simp
  have "(0::real) \<le> sqrt (real n)" by simp
  then have "\<lceil>0::real\<rceil> \<le> \<lceil>sqrt (real n)\<rceil>" by (rule ceiling_mono)
  then have c: "int (grid_cols n) = \<lceil>sqrt (real n)\<rceil>"
    by (simp add: grid_cols_def)
  have "(0::real) \<le> real n / real (grid_cols n)" by simp
  then have "\<lceil>0::real\<rceil> \<le> \<lceil>real n / real (grid_cols n)\<rceil>" by (rule ceiling_mono)
  then have r: "int (grid_rows n) = \<lceil>real n / real (grid_cols n)\<rceil>"
    by (simp add: grid_rows_def)
  have m: "\<forall>r c. r \<le> c + 1 \<and> c \<le> r + 1 \<and> n \<le> r * c \<longrightarrow> grid_rows n * grid_cols n \<le> r * c"
    using near_square_min [OF n] by blast
  show ?thesis
    using c r m grid_cols_lower [OF n] grid_cols_upper [of n] grid_rows_lower [OF n]
      grid_rows_upper [OF n] grid_waste_lt_cols [OF n] grid_rows_le_cols [OF n]
      grid_cols_le_Suc_rows [OF n]
    by blast
qed

theorem grid_shape_witness:
  "(1::nat) \<le> 7 \<and> grid_cols 7 = 3 \<and> grid_rows 7 = 3
   \<and> \<lceil>sqrt (real (7::nat))\<rceil> = 3 \<and> \<lceil>real (7::nat) / real (grid_cols 7)\<rceil> = 3
   \<and> (7::nat) \<le> grid_rows 7 * grid_cols 7
   \<and> grid_rows 7 * grid_cols 7 - 7 < grid_cols 7
   \<and> grid_rows 7 * grid_cols 7 \<le> 3 * 4"
proof -
  have h: "(1::nat) \<le> 7" by simp
  show ?thesis
    using grid_shape [OF h] by (simp add: grid_cols_7 grid_rows_7)
qed

section \<open>Running commands\<close>

lemma run_cmd_cases:
  "run_cmd env c =
   ((case procs env c of
       SpawnFails e \<Rightarrow> Returns False
     | Exits rc \<Rightarrow> Returns (rc = 0)
     | NeverExits \<Rightarrow> Hangs),
    [Exec c])"
  by (simp add: run_cmd_def subprocess_run_def seq_def try_except_def split: proc.splits)

lemma run_cmd_succeeds: "succeeds env c \<Longrightarrow> run_cmd env c = (Returns True, [Exec c])"
  by (simp add: run_cmd_cases succeeds_def)

lemma run_cmd_fails: "fails env c \<Longrightarrow> run_cmd env c = (Returns False, [Exec c])"
  by (simp add: run_cmd_cases fails_def split: proc.splits)

lemma run_cmd_hangs:
  "\<not> succeeds env c \<Longrightarrow> \<not> fails env c \<Longrightarrow> run_cmd env c = (Hangs, [Exec c])"
  by (simp add: run_cmd_cases fails_def succeeds_def split: proc.splits)

lemma succeeds_not_fails: "succeeds env c \<Longrightarrow> \<not> fails env c"
  by (simp add: succeeds_def fails_def)

lemma set_wallpaper_wayland_try_each:
  "set_wallpaper_wayland env p = try_each env (backends p)"
proof -
  have step: "seq (run_cmd env c) (\<lambda>ok. if ok then (Returns True, []) else rest)
      = (if succeeds env c then (Returns True, [Exec c])
         else if fails env c then (case rest of (r, t) \<Rightarrow> (r, Exec c # t))
         else (Hangs, [Exec c]))" for c and rest :: "bool run"
    by (cases "succeeds env c"; cases "fails env c")
      (simp_all add: run_cmd_succeeds run_cmd_fails run_cmd_hangs seq_def succeeds_not_fails
        split: prod.splits)
  show ?thesis
    by (simp only: set_wallpaper_wayland_def backends_def step try_each.simps)
qed

lemma try_each_trace: "\<exists>k \<le> length cs. snd (try_each env cs) = map Exec (take k cs)"
proof (induction cs)
  case Nil
  then show ?case by simp
next
  case (Cons c cs)
  then obtain k where k: "k \<le> length cs" "snd (try_each env cs) = map Exec (take k cs)"
    by blast
  show ?case
  proof (cases "\<not> succeeds env c \<and> fails env c")
    case True
    then have "snd (try_each env (c # cs)) = map Exec (take (Suc k) (c # cs))"
      using k by (simp add: case_prod_beta)
    moreover have "Suc k \<le> length (c # cs)" using k by simp
    ultimately show ?thesis by blast
  next
    case False
    then have "snd (try_each env (c # cs)) = map Exec (take (Suc 0) (c # cs))"
      by auto
    moreover have "Suc 0 \<le> length (c # cs)" by simp
    ultimately show ?thesis by blast
  qed
qed

lemma try_each_never_raises: "fst (try_each env cs) \<noteq> Raises e"
  by (induction cs) (simp_all add: case_prod_beta)

lemma try_each_all_fail:
  "\<forall>c \<in> set cs. fails env c \<Longrightarrow> try_each env cs = (Returns False, map Exec cs)"
  by (induction cs) (auto dest: succeeds_not_fails)

lemma try_each_first_success:
  assumes "k < length cs" and "succeeds env (cs ! k)" and "\<forall>j < k. fails env (cs ! j)"
  shows "try_each env cs = (Returns True, map Exec (take (Suc k) cs))"
  using assms
proof (induction cs arbitrary: k)
  case Nil
  then show ?case by simp
next
  case (Cons c cs)
  show ?case
  proof (cases k)
    case 0
    with Cons.prems show ?thesis by simp
  next
    case (Suc m)
    with Cons.prems have m: "m < length cs" "succeeds env (cs ! m)" by simp_all
    have rest: "\<forall>j < m. fails env (cs ! j)"
    proof (intro allI impI)
      fix j assume "j < m"
      then have "Suc j < k" using Suc by simp
      with Cons.prems(3) have "fails env ((c # cs) ! Suc j)" by blast
      then show "fails env (cs ! j)" by simp
    qed
    have "0 < k" using Suc by simp
    with Cons.prems(3) have c: "fails env ((c # cs) ! 0)" by blast
    then have "fails env c" by simp
    moreover from this have "\<not> succeeds env c" using succeeds_not_fails by blast
    ultimately show ?thesis
      using Cons.IH [OF m rest] Suc by simp
  qed
qed

lemma try_each_success_is_first:
  assumes "fst (try_each env cs) = Returns True"
  shows "\<exists>k < length cs. succeeds env (cs ! k) \<and> (\<forall>j < k. fails env (cs ! j))"
  using assms
proof (induction cs)
  case Nil
  then show ?case by simp
next
  case (Cons c cs)
  show ?case
  proof (cases "succeeds env c")
    case True
    then have "succeeds env ((c # cs) ! 0) \<and> (\<forall>j < 0. fails env ((c # cs) ! j))" by simp
    then show ?thesis by blast
  next
    case False
    with Cons.prems have f: "fails env c" and "fst (try_each env cs) = Returns True"
      by (auto split: if_splits prod.splits)
    with Cons.IH obtain k where k: "k < length cs" "succeeds env (cs ! k)"
      "\<forall>j < k. fails env (cs ! j)" by blast
    have "\<forall>j < Suc k. fails env ((c # cs) ! j)"
    proof (intro allI impI)
      fix j assume "j < Suc k"
      then show "fails env ((c # cs) ! j)" using f k(3) by (cases j) simp_all
    qed
    moreover have "Suc k < length (c # cs)" "succeeds env ((c # cs) ! Suc k)"
      using k by simp_all
    ultimately show ?thesis by blast
  qed
qed

lemma distinct_backends: "distinct (map Exec (take k (backends p)))"
proof -
  have "distinct (backends p)" by (simp add: backends_def)
  then have "distinct (take k (backends p))" by (rule distinct_take)
  then show ?thesis by (simp add: distinct_map inj_on_def)
qed

lemma length_backends: "length (backends p) = 4"
  by (simp add: backends_def)

text \<open>
  Claim C3. \<open>set_wallpaper_wayland\<close> runs a prefix of the four backends in their fixed
  order, so each at most once, and never raises. It stops at the first backend that
  exits with code 0: when backend \<open>k\<close> succeeds and all before it fail, it returns
  \<open>True\<close> having run the backends up to \<open>k\<close> and none after; it returns \<open>True\<close> only
  so. When all four fail it returns \<open>False\<close>, having run all four.
\<close>

theorem wallpaper_fallback:
  "(\<exists>k \<le> 4. snd (set_wallpaper_wayland env p) = map Exec (take k (backends p)))
   \<and> distinct (snd (set_wallpaper_wayland env p))
   \<and> (\<forall>e. fst (set_wallpaper_wayland env p) \<noteq> Raises e)
   \<and> (\<forall>k < 4. succeeds env (backends p ! k) \<and> (\<forall>j < k. fails env (backends p ! j))
         \<longrightarrow> set_wallpaper_wayland env p = (Returns True, map Exec (take (Suc k) (backends p))))
   \<and> (fst (set_wallpaper_wayland env p) = Returns True
         \<longrightarrow> (\<exists>k < 4. succeeds env (backends p ! k) \<and> (\<forall>j < k. fails env (backends p ! j))))
   \<and> ((\<forall>c \<in> set (backends p). fails env c)
         \<longrightarrow> set_wallpaper_wayland env p = (Returns False, map Exec (backends p)))"
proof -
  let ?run = "set_wallpaper_wayland env p"
  have eq: "?run = try_each env (backends p)"
    by (rule set_wallpaper_wayland_try_each)
  obtain k where k: "k \<le> 4" "snd ?run = map Exec (take k (backends p))"
    using try_each_trace [of "backends p" env] by (auto simp add: eq length_backends)
  have prefix: "\<exists>k \<le> 4. snd ?run = map Exec (take k (backends p))"
    using k by blast
  have once: "distinct (snd ?run)"
    by (simp only: k(2) distinct_backends)
  have total: "\<forall>e. fst ?run \<noteq> Raises e"
    by (simp add: eq try_each_never_raises)
  have first: "\<forall>k < 4. succeeds env (backends p ! k) \<and> (\<forall>j < k. fails env (backends p ! j))
      \<longrightarrow> ?run = (Returns True, map Exec (take (Suc k) (backends p)))"
    using try_each_first_success [of _ "backends p" env] by (simp add: eq length_backends)
  have only: "fst ?run = Returns True
      \<longrightarrow> (\<exists>k < 4. succeeds env (backends p ! k) \<and> (\<forall>j < k. fails env (backends p ! j)))"
    using try_each_success_is_first [of env "backends p"] by (simp add: eq length_backends)
  have none: "(\<forall>c \<in> set (backends p). fails env c)
      \<longrightarrow> ?run = (Returns False, map Exec (backends p))"
    using try_each_all_fail [of "backends p" env] by (simp add: eq)
  show ?thesis
    using prefix once total first only none by (intro conjI)
qed

lemma hypr_env_swww: "fails hypr_env [''swww'', ''img'', p, ''--output'', ''all'']"
  by (simp add: fails_def hypr_env_def installed_def)

lemma hypr_env_hyprpaper: "succeeds hypr_env [''hyprpaper'', ''--set'', p]"
  by (simp add: succeeds_def hypr_env_def installed_def)

lemma bare_env_fails: "fails bare_env c"
  by (simp add: fails_def bare_env_def installed_def split: list.splits)

theorem wallpaper_fallback_witness:
  "fails hypr_env (backends ''/w/a.png'' ! 0) \<and> succeeds hypr_env (backends ''/w/a.png'' ! 1)
   \<and> set_wallpaper_wayland hypr_env ''/w/a.png''
       = (Returns True, [Exec [''swww'', ''img'', ''/w/a.png'', ''--output'', ''all''],
                         Exec [''hyprpaper'', ''--set'', ''/w/a.png'']])
   \<and> set_wallpaper_wayland bare_env ''/w/a.png''
       = (Returns False, [Exec [''swww'', ''img'', ''/w/a.png'', ''--output'', ''all''],
                          Exec [''hyprpaper'', ''--set'', ''/w/a.png''],
                          Exec [''swaybg'', ''-i'', ''/w/a.png''],
                          Exec [''feh'', ''--bg-scale'', ''/w/a.png'']])"
proof -
  have a: "fails hypr_env (backends ''/w/a.png'' ! 0)"
    by (simp add: backends_def hypr_env_swww)
  have b: "succeeds hypr_env (backends ''/w/a.png'' ! 1)"
    by (simp add: backends_def hypr_env_hyprpaper)
  have before: "\<forall>j < 1. fails hypr_env (backends ''/w/a.png'' ! j)"
    using a by simp
  have all: "\<forall>c \<in> set (backends ''/w/a.png''). fails bare_env c"
    by (simp add: bare_env_fails)
  have "set_wallpaper_wayland hypr_env ''/w/a.png''
      = (Returns True, map Exec (take (Suc 1) (backends ''/w/a.png'')))"
    using wallpaper_fallback [of hypr_env "''/w/a.png''"] b before by simp
  moreover have "set_wallpaper_wayland bare_env ''/w/a.png''
      = (Returns False, map Exec (backends ''/w/a.png''))"
    using wallpaper_fallback [of bare_env "''/w/a.png''"] all by blast
  ultimately show ?thesis
    using a b by (simp add: backends_def)
qed

text \<open>
  Claim C9, as amended. \<open>run_cmd\<close> never raises and starts the command once. Whenever
  the command cannot be started or its process exits, \<open>run_cmd\<close> returns: \<open>True\<close> exactly
  when the process was started and exited with code 0, \<open>False\<close> on every failure (a
  return code other than 0, a missing binary or any other exception, which is swallowed).
  It does not return exactly when the process never exits, since it waits without a
  timeout.
\<close>

theorem run_cmd_contract:
  "(\<forall>e. fst (run_cmd env c) \<noteq> Raises e)
   \<and> snd (run_cmd env c) = [Exec c]
   \<and> (succeeds env c \<longrightarrow> fst (run_cmd env c) = Returns True)
   \<and> (fails env c \<longrightarrow> fst (run_cmd env c) = Returns False)
   \<and> (fst (run_cmd env c) = Returns True \<longrightarrow> procs env c = Exits 0)
   \<and> (\<forall>e. procs env c = SpawnFails e \<longrightarrow> fst (run_cmd env c) = Returns False)
   \<and> (\<forall>rc. procs env c = Exits rc \<and> rc \<noteq> 0 \<longrightarrow> fst (run_cmd env c) = Returns False)
   \<and> (fst (run_cmd env c) = Hangs \<longleftrightarrow> procs env c = NeverExits)"
  by (cases "procs env c") (simp_all add: run_cmd_cases succeeds_def fails_def)

theorem run_cmd_contract_witness:
  "succeeds hypr_env [''hyprpaper'', ''--set'', ''/w/a.png'']
   \<and> run_cmd hypr_env [''hyprpaper'', ''--set'', ''/w/a.png'']
       = (Returns True, [Exec [''hyprpaper'', ''--set'', ''/w/a.png'']])
   \<and> fails hypr_env [''swww'', ''img'', ''/w/a.png'', ''--output'', ''all'']
   \<and> fst (run_cmd hypr_env [''swww'', ''img'', ''/w/a.png'', ''--output'', ''all'']) = Returns False
   \<and> procs bare_env [''feh'', ''--bg-scale'', ''/w/a.png''] = SpawnFails FileNotFoundError
   \<and> fst (run_cmd bare_env [''feh'', ''--bg-scale'', ''/w/a.png'']) = Returns False"
proof -
  have a: "succeeds hypr_env [''hyprpaper'', ''--set'', ''/w/a.png'']"
    by (rule hypr_env_hyprpaper)
  have b: "fails hypr_env [''swww'', ''img'', ''/w/a.png'', ''--output'', ''all'']"
    by (rule hypr_env_swww)
  have c: "procs bare_env [''feh'', ''--bg-scale'', ''/w/a.png''] = SpawnFails FileNotFoundError"
    by (simp add: bare_env_def installed_def)
  show ?thesis
    using run_cmd_contract [of hypr_env "[''hyprpaper'', ''--set'', ''/w/a.png'']"]
      run_cmd_contract [of hypr_env "[''swww'', ''img'', ''/w/a.png'', ''--output'', ''all'']"]
      run_cmd_contract [of bare_env "[''feh'', ''--bg-scale'', ''/w/a.png'']"]
      a b c
    by (simp add: prod_eq_iff)
qed

text \<open>
  Claim C9 as stated fails: \<open>run_cmd\<close> is not total. On \<open>swaybg\<close>, which shows the
  wallpaper until it is killed, it starts the process and never returns.
\<close>

theorem run_cmd_total_counterexample:
  "run_cmd hypr_env [''swaybg'', ''-i'', ''/w/a.png'']
   = (Hangs, [Exec [''swaybg'', ''-i'', ''/w/a.png'']])"
  by (simp add: run_cmd_cases hypr_env_def installed_def)

section \<open>Discovery\<close>

lemma rfind_dot_split:
  assumes "CHR ''.'' \<notin> set ext"
  shows "rfind_dot (stem @ CHR ''.'' # ext) = int (length stem)"
proof -
  have "takeWhile (\<lambda>c. c \<noteq> CHR ''.'') (rev ext @ CHR ''.'' # rev stem)
        = takeWhile (\<lambda>c. c \<noteq> CHR ''.'') (rev ext)"
    by (rule takeWhile_tail) simp
  also have "\<dots> = rev ext"
    using assms by auto
  finally show ?thesis
    by (simp add: rfind_dot_def)
qed

lemma name_suffix_split:
  assumes "CHR ''.'' \<notin> set ext"
  shows "name_suffix (stem @ CHR ''.'' # ext) =
         (if stem \<noteq> [] \<and> ext \<noteq> [] then CHR ''.'' # ext else [])"
  using assms by (auto simp add: name_suffix_def rfind_dot_split)

lemma name_suffix_no_dot:
  assumes "CHR ''.'' \<notin> set name"
  shows "name_suffix name = []"
  using assms by (simp add: name_suffix_def rfind_dot_def)

lemma str_lower_no_dot:
  assumes "CHR ''.'' \<notin> set (str_lower ext)"
  shows "CHR ''.'' \<notin> set ext"
proof
  assume "CHR ''.'' \<in> set ext"
  then have "lower_char CHR ''.'' \<in> set (str_lower ext)"
    by (simp add: str_lower_def)
  then show False
    using assms by (simp add: lower_char_def)
qed

lemma supported_iff:
  "str_lower (CHR ''.'' # ext) \<in> set SUPPORTED_EXTS
   \<longleftrightarrow> str_lower ext \<in> {''jpg'', ''jpeg'', ''png'', ''webp'', ''bmp'', ''gif''}"
  by (auto simp add: SUPPORTED_EXTS_def str_lower_def lower_char_def)

lemma supported_no_dot:
  assumes "str_lower ext \<in> {''jpg'', ''jpeg'', ''png'', ''webp'', ''bmp'', ''gif''}"
  shows "CHR ''.'' \<notin> set ext \<and> ext \<noteq> []"
proof -
  have "CHR ''.'' \<notin> set (str_lower ext)" using assms by auto
  then have "CHR ''.'' \<notin> set ext" by (rule str_lower_no_dot)
  moreover have "ext \<noteq> []" using assms by (auto simp add: str_lower_def)
  ultimately show ?thesis by simp
qed

lemma has_image_extension_iff:
  "has_image_extension name \<longleftrightarrow> str_lower (name_suffix name) \<in> set SUPPORTED_EXTS"
proof
  assume "has_image_extension name"
  then obtain stem ext where name: "name = stem @ CHR ''.'' # ext" and stem: "stem \<noteq> []"
    and ext: "str_lower ext \<in> {''jpg'', ''jpeg'', ''png'', ''webp'', ''bmp'', ''gif''}"
    by (auto simp add: has_image_extension_def)
  from supported_no_dot [OF ext] have "name_suffix name = CHR ''.'' # ext"
    using stem by (simp add: name name_suffix_split)
  then show "str_lower (name_suffix name) \<in> set SUPPORTED_EXTS"
    using ext by (simp only: supported_iff)
next
  assume sup: "str_lower (name_suffix name) \<in> set SUPPORTED_EXTS"
  have empty: "str_lower [] \<notin> set SUPPORTED_EXTS"
    by (simp add: str_lower_def SUPPORTED_EXTS_def)
  show "has_image_extension name"
  proof (cases "CHR ''.'' \<in> set name")
    case False
    then have "name_suffix name = []" by (simp add: name_suffix_no_dot)
    with sup empty show ?thesis by simp
  next
    case True
    then obtain stem ext where name: "name = stem @ CHR ''.'' # ext" and nodot: "CHR ''.'' \<notin> set ext"
      by (auto dest: split_list_last)
    have suffix: "name_suffix name = (if stem \<noteq> [] \<and> ext \<noteq> [] then CHR ''.'' # ext else [])"
      unfolding name using nodot by (rule name_suffix_split)
    with sup empty have stem: "stem \<noteq> []" and "name_suffix name = CHR ''.'' # ext"
      by (auto split: if_splits)
    with sup have "str_lower ext \<in> {''jpg'', ''jpeg'', ''png'', ''webp'', ''bmp'', ''gif''}"
      by (simp only: supported_iff)
    with name stem show ?thesis
      by (auto simp add: has_image_extension_def)
  qed
qed

lemma path_suffix_child: "path_suffix (p @ [name]) = name_suffix name"
proof (cases "p @ [name] = [''/''] \<or> p @ [name] = [''//'']")
  case True
  then have "name = ''/'' \<or> name = ''//''" by (cases p) auto
  moreover have "p @ [name] \<noteq> []" by simp
  ultimately show ?thesis
    using True by (auto simp add: path_suffix_def path_name_def name_suffix_def rfind_dot_def)
next
  case False
  then show ?thesis by (auto simp add: path_suffix_def path_name_def)
qed

lemma child_mono: "a \<le> b \<Longrightarrow> p @ [a] \<le> p @ [(b::string)]"
  by (induction p) (auto simp add: Cons_le_Cons)

lemma sorted_children:
  "sorted (names :: string list) \<Longrightarrow> sorted (map (\<lambda>n. p @ [n]) names)"
  by (induction names) (auto simp add: child_mono)

lemma sort_children:
  "sort (map (\<lambda>n. p @ [n]) (names :: string list)) = map (\<lambda>n. p @ [n]) (sort names)"
proof (rule properties_for_sort)
  show "mset (map (\<lambda>n. p @ [n]) (sort names)) = mset (map (\<lambda>n. p @ [n]) names)"
    by simp
  show "sorted (map (\<lambda>n. p @ [n]) (sort names))"
    by (rule sorted_children) simp
qed

lemma keep_children:
  "filter (\<lambda>f. str_lower (path_suffix f) \<in> set SUPPORTED_EXTS) (sort (map (\<lambda>e. p @ [fst e]) es))
   = map (\<lambda>n. p @ [n]) (sort (filter has_image_extension (map fst es)))"
proof -
  have "map (\<lambda>e. p @ [fst e]) es = map (\<lambda>n. p @ [n]) (map fst es)"
    by simp
  then have "sort (map (\<lambda>e. p @ [fst e]) es) = map (\<lambda>n. p @ [n]) (sort (map fst es))"
    by (simp only: sort_children)
  then have "filter (\<lambda>f. str_lower (path_suffix f) \<in> set SUPPORTED_EXTS)
        (sort (map (\<lambda>e. p @ [fst e]) es))
      = map (\<lambda>n. p @ [n]) (filter has_image_extension (sort (map fst es)))"
    by (simp add: filter_map comp_def path_suffix_child has_image_extension_iff [symmetric])
  then show ?thesis
    by (simp add: filter_sort)
qed

lemma find_images_home_unknown:
  assumes "expanduser fs folder = Inl e"
  shows "find_images fs folder = Inl e"
  using assms by (simp add: find_images_def and_then_def)

lemma find_images_denied:
  assumes "expanduser fs folder = Inr p" and "stat fs p = AccessDenied"
  shows "find_images fs folder = Inl PermissionError"
  using assms by (simp add: find_images_def and_then_def path_exists_def)

lemma find_images_nothing:
  assumes "expanduser fs folder = Inr p" and "stat fs p = NoEntry"
  shows "find_images fs folder = Inr []"
  using assms by (simp add: find_images_def and_then_def path_exists_def)

lemma find_images_file:
  assumes "expanduser fs folder = Inr p" and "stat fs p = Entry File"
  shows "find_images fs folder = Inr []"
  using assms by (simp add: find_images_def and_then_def path_exists_def is_dir_def)

lemma find_images_unlistable:
  assumes "expanduser fs folder = Inr p" and "stat fs p = Entry UnlistableDir"
  shows "find_images fs folder = Inl PermissionError"
  using assms by (simp add: find_images_def and_then_def path_exists_def is_dir_def iterdir_def)

lemma find_images_dir:
  assumes "expanduser fs folder = Inr p" and "stat fs p = Entry (Dir es)"
  shows "find_images fs folder =
         Inr (map (\<lambda>n. str_path (p @ [n])) (sort (filter has_image_extension (map fst es))))"
  using assms
  by (simp add: find_images_def and_then_def path_exists_def is_dir_def iterdir_def
      keep_children comp_def)

lemma filter_any_kind: "filter (\<lambda>e. any_kind (snd e)) es = es"
  by (simp add: any_kind_def)

lemma find_images_discovered: "find_images fs folder = discovered any_kind fs folder"
proof (cases "expanduser fs folder")
  case (Inl e)
  then show ?thesis
    by (simp add: find_images_home_unknown discovered_def)
next
  case (Inr p)
  show ?thesis
  proof (cases "stat fs p")
    case NoEntry
    with Inr show ?thesis by (simp add: find_images_nothing discovered_def)
  next
    case AccessDenied
    with Inr show ?thesis by (simp add: find_images_denied discovered_def)
  next
    case (Entry nd)
    with Inr show ?thesis
      by (cases nd)
        (simp_all add: find_images_file find_images_dir find_images_unlistable discovered_def
          filter_any_kind)
  qed
qed

lemma ex_find: "find_images example_fs ''/w'' = Inr [''/w/A.JPG'', ''/w/b.png'']"
proof -
  have "expanduser example_fs ''/w'' = Inr [''/'', ''w'']"
    by (simp add: example_fs_def)
  moreover have "stat example_fs [''/'', ''w'']
      = Entry (Dir [(''b.png'', RegularFile), (''A.JPG'', RegularFile), (''c.txt'', RegularFile)])"
    by (simp add: example_fs_def)
  ultimately have "find_images example_fs ''/w''
      = Inr (map (\<lambda>n. str_path ([''/'', ''w''] @ [n]))
               (sort (filter has_image_extension
                  (map fst [(''b.png'', RegularFile), (''A.JPG'', RegularFile),
                            (''c.txt'', RegularFile)]))))"
    by (rule find_images_dir)
  then show ?thesis
    by (simp add: has_image_extension_iff name_suffix_def rfind_dot_def str_lower_def
        lower_char_def SUPPORTED_EXTS_def str_path_def)
qed

lemma ex_find_missing: "find_images example_fs ''/nowhere'' = Inr []"
  by (rule find_images_nothing [of _ _ "[''/'', ''missing'']"]) (simp_all add: example_fs_def)

text \<open>
  Claim C4, as amended. Discovery raises what the home expansion raises
  (\<open>RuntimeError\<close> for an unknown \<open>~user\<close>), and \<open>PermissionError\<close> when the path may not
  be examined or the directory may not be listed: nothing in it catches an exception.
  Otherwise it returns: the empty list when nothing is at the path or what is there is
  not a directory; for a directory, its direct entries of any kind (a subdirectory or a
  special file counts as much as a regular file) whose name is a non-empty stem, a dot
  and an extension that is, in lower case, one of \<open>jpg\<close>, \<open>jpeg\<close>, \<open>png\<close>, \<open>webp\<close>,
  \<open>bmp\<close>, \<open>gif\<close>, as paths inside the directory, by ascending name.
\<close>

theorem find_images_contract:
  "find_images fs folder = discovered any_kind fs folder
   \<and> (\<forall>e. expanduser fs folder = Inl e \<longrightarrow> find_images fs folder = Inl e)
   \<and> (\<forall>p. expanduser fs folder = Inr p \<and> stat fs p = AccessDenied
         \<longrightarrow> find_images fs folder = Inl PermissionError)
   \<and> (\<forall>p. expanduser fs folder = Inr p \<and> stat fs p = Entry UnlistableDir
         \<longrightarrow> find_images fs folder = Inl PermissionError)
   \<and> (\<forall>p. expanduser fs folder = Inr p \<and> (stat fs p = NoEntry \<or> stat fs p = Entry File)
         \<longrightarrow> find_images fs folder = Inr [])
   \<and> (\<forall>p es. expanduser fs folder = Inr p \<and> stat fs p = Entry (Dir es)
         \<longrightarrow> find_images fs folder
             = Inr (map (\<lambda>n. str_path (p @ [n]))
                      (sort (filter has_image_extension (map fst es)))))"
proof -
  have a: "find_images fs folder = discovered any_kind fs folder"
    by (rule find_images_discovered)
  have b: "\<forall>e. expanduser fs folder = Inl e \<longrightarrow> find_images fs folder = Inl e"
    using find_images_home_unknown by blast
  have c: "\<forall>p. expanduser fs folder = Inr p \<and> stat fs p = AccessDenied
      \<longrightarrow> find_images fs folder = Inl PermissionError"
    using find_images_denied by blast
  have d: "\<forall>p. expanduser fs folder = Inr p \<and> stat fs p = Entry UnlistableDir
      \<longrightarrow> find_images fs folder = Inl PermissionError"
    using find_images_unlistable by blast
  have e: "\<forall>p. expanduser fs folder = Inr p \<and> (stat fs p = NoEntry \<or> stat fs p = Entry File)
      \<longrightarrow> find_images fs folder = Inr []"
    using find_images_nothing find_images_file by blast
  have f: "\<forall>p es. expanduser fs folder = Inr p \<and> stat fs p = Entry (Dir es)
      \<longrightarrow> find_images fs folder
          = Inr (map (\<lambda>n. str_path (p @ [n])) (sort (filter has_image_extension (map fst es))))"
    using find_images_dir by blast
  show ?thesis
    using a b c d e f by (intro conjI)
qed

theorem find_images_contract_witness:
  "find_images example_fs ''/w'' = Inr [''/w/A.JPG'', ''/w/b.png'']
   \<and> discovered any_kind example_fs ''/w'' = Inr [''/w/A.JPG'', ''/w/b.png'']
   \<and> expanduser example_fs ''/nowhere'' = Inr [''/'', ''missing'']
   \<and> stat example_fs [''/'', ''missing''] = NoEntry
   \<and> find_images example_fs ''/nowhere'' = Inr []
   \<and> expanduser example_fs ''~nosuchuser/pics'' = Inl RuntimeError
   \<and> find_images example_fs ''~nosuchuser/pics'' = Inl RuntimeError
   \<and> expanduser example_fs ''/locked/pics'' = Inr [''/'', ''locked'', ''pics'']
   \<and> stat example_fs [''/'', ''locked'', ''pics''] = AccessDenied
   \<and> find_images example_fs ''/locked/pics'' = Inl PermissionError
   \<and> expanduser example_fs ''/private'' = Inr [''/'', ''private'']
   \<and> stat example_fs [''/'', ''private''] = Entry UnlistableDir
   \<and> find_images example_fs ''/private'' = Inl PermissionError"
proof -
  have w: "discovered any_kind example_fs ''/w'' = Inr [''/w/A.JPG'', ''/w/b.png'']"
    using find_images_contract [of example_fs "''/w''"] by (simp add: ex_find)
  have n1: "expanduser example_fs ''/nowhere'' = Inr [''/'', ''missing'']"
    and n2: "stat example_fs [''/'', ''missing''] = NoEntry"
    by (simp_all add: example_fs_def)
  have n: "find_images example_fs ''/nowhere'' = Inr []"
    using find_images_contract [of example_fs "''/nowhere''"] n1 n2 by blast
  have u1: "expanduser example_fs ''~nosuchuser/pics'' = Inl RuntimeError"
    by (simp add: example_fs_def)
  have u: "find_images example_fs ''~nosuchuser/pics'' = Inl RuntimeError"
    using find_images_contract [of example_fs "''~nosuchuser/pics''"] u1 by blast
  have l1: "expanduser example_fs ''/locked/pics'' = Inr [''/'', ''locked'', ''pics'']"
    and l2: "stat example_fs [''/'', ''locked'', ''pics''] = AccessDenied"
    by (simp_all add: example_fs_def)
  have l: "find_images example_fs ''/locked/pics'' = Inl PermissionError"
    using find_images_contract [of example_fs "''/locked/pics''"] l1 l2 by blast
  have p1: "expanduser example_fs ''/private'' = Inr [''/'', ''private'']"
    and p2: "stat example_fs [''/'', ''private''] = Entry UnlistableDir"
    by (simp_all add: example_fs_def)
  have p: "find_images example_fs ''/private'' = Inl PermissionError"
    using find_images_contract [of example_fs "''/private''"] p1 p2 by blast
  show ?thesis
    using ex_find w n1 n2 n u1 u l1 l2 l p1 p2 p by (intro conjI)
qed

text \<open>
  Claim C4 as stated fails twice. In a directory holding the regular file \<open>a.png\<close> and
  the subdirectory \<open>old.png\<close>, discovery returns both, where the regular files with a
  supported extension are \<open>a.png\<close> alone. And for the path \<open>~nosuchuser/pics\<close>, which
  does not exist, discovery raises \<open>RuntimeError\<close> where the claim has it return the
  empty list without raising.
\<close>

theorem find_images_regular_counterexample:
  "find_images subdir_fs ''/w'' = Inr [''/w/a.png'', ''/w/old.png'']
   \<and> discovered is_regular subdir_fs ''/w'' = Inr [''/w/a.png'']
   \<and> find_images example_fs ''~nosuchuser/pics'' = Inl RuntimeError"
proof -
  have e: "expanduser subdir_fs ''/w'' = Inr [''/'', ''w'']"
    and s: "stat subdir_fs [''/'', ''w'']
      = Entry (Dir [(''old.png'', Subdirectory), (''a.png'', RegularFile)])"
    by (simp_all add: subdir_fs_def)
  have "find_images subdir_fs ''/w''
      = Inr (map (\<lambda>n. str_path ([''/'', ''w''] @ [n]))
               (sort (filter has_image_extension
                  (map fst [(''old.png'', Subdirectory), (''a.png'', RegularFile)]))))"
    using e s by (rule find_images_dir)
  then have a: "find_images subdir_fs ''/w'' = Inr [''/w/a.png'', ''/w/old.png'']"
    by (simp add: has_image_extension_iff name_suffix_def rfind_dot_def str_lower_def
        lower_char_def SUPPORTED_EXTS_def str_path_def)
  have b: "discovered is_regular subdir_fs ''/w'' = Inr [''/w/a.png'']"
    by (simp add: discovered_def e s is_regular_def has_image_extension_iff name_suffix_def
        rfind_dot_def str_lower_def lower_char_def SUPPORTED_EXTS_def str_path_def)
  have c: "find_images example_fs ''~nosuchuser/pics'' = Inl RuntimeError"
    by (rule find_images_home_unknown) (simp add: example_fs_def)
  show ?thesis
    using a b c by (intro conjI)
qed

section \<open>The layout\<close>

lemma grid_cols_2: "grid_cols 2 = 2"
  by (rule grid_cols_unique) simp_all

lemma grid_rows_2: "grid_rows 2 = 1"
  by (simp add: grid_rows_div grid_cols_2)

lemma grid_cols_two: "grid_cols (Suc (Suc 0)) = 2"
  using grid_cols_2 by (simp add: numeral_2_eq_2)

lemma grid_rows_two: "grid_rows (Suc (Suc 0)) = 1"
  using grid_rows_2 by (simp add: numeral_2_eq_2)

lemma clear_grid_empty: "clear_grid g = []"
  by (induction g) simp_all

lemma populate_raises:
  assumes "find_images fs (image_dir self) = Inl e"
  shows "populate fs self = Inl e"
  using assms by (simp add: populate_def and_then_def)

lemma populate_empty:
  assumes "find_images fs (image_dir self) = Inr []"
  shows "populate fs self =
         Inr (self\<lparr>images := [], grid := [(placeholder_button (image_dir self), 0, 0)]\<rparr>)"
  using assms by (simp add: populate_def and_then_def clear_grid_empty)

lemma populate_nonempty:
  assumes "find_images fs (image_dir self) = Inr imgs" and "imgs \<noteq> []"
  shows "populate fs self =
         Inr (self\<lparr>images := imgs,
                grid := map (\<lambda>(idx, imgpath).
                               (thumb_button fs (thumb_side self (length imgs)) imgpath,
                                idx div grid_cols (length imgs),
                                idx mod grid_cols (length imgs)))
                          (enumerate 0 imgs)\<rparr>)"
  using assms by (simp add: populate_def and_then_def clear_grid_empty Let_def)

lemma thumb_side_frame:
  "thumb_side (self\<lparr>images := imgs, grid := g\<rparr>) n = thumb_side self n"
  by (simp add: thumb_side_def thumb_side_w_def thumb_side_h_def available_w_def available_h_def)

lemma populate_frame:
  "populate fs (self\<lparr>images := imgs, grid := g\<rparr>) = populate fs self"
  by (simp add: populate_def and_then_def clear_grid_empty Let_def thumb_side_frame
      split: sum.splits)

lemma populate_populate: "and_then (populate fs self) (populate fs) = populate fs self"
proof (cases "find_images fs (image_dir self)")
  case (Inl e)
  then show ?thesis
    by (simp add: populate_raises and_then_def)
next
  case (Inr imgs)
  show ?thesis
  proof (cases "imgs = []")
    case True
    with Inr have e: "find_images fs (image_dir self) = Inr []" by simp
    show ?thesis
      by (simp add: populate_empty [OF e] and_then_def populate_frame)
  next
    case False
    show ?thesis
      by (simp add: populate_nonempty [OF Inr False] and_then_def populate_frame)
  qed
qed

lemma div_times_le:
  fixes a :: int
  assumes "0 < c"
  shows "a div c * c \<le> a"
proof -
  have "a = a div c * c + a mod c" by simp
  moreover have "0 \<le> a mod c" using assms by simp
  ultimately show ?thesis by linarith
qed

lemma thumb_side_w_fits:
  assumes "0 < cols"
  shows "thumb_side_w self cols * int cols + (int cols - 1) * spacing self \<le> available_w self"
  using div_times_le [of "int cols" "available_w self - (int cols - 1) * spacing self"] assms
  by (simp add: thumb_side_w_def)

lemma thumb_side_h_fits:
  assumes "0 < rows"
  shows "thumb_side_h self rows * int rows + (int rows - 1) * spacing self \<le> available_h self"
  using div_times_le [of "int rows" "available_h self - (int rows - 1) * spacing self"] assms
  by (simp add: thumb_side_h_def)

lemma thumb_side_w_floor:
  "thumb_side_w self cols =
   \<lfloor>real_of_int (available_w self - (int cols - 1) * spacing self) / real cols\<rfloor>"
  using floor_divide_of_int_eq [of "available_w self - (int cols - 1) * spacing self" "int cols",
      where ?'a = real]
  by (simp add: thumb_side_w_def)

lemma thumb_side_h_floor:
  "thumb_side_h self rows =
   \<lfloor>real_of_int (available_h self - (int rows - 1) * spacing self) / real rows\<rfloor>"
  using floor_divide_of_int_eq [of "available_h self - (int rows - 1) * spacing self" "int rows",
      where ?'a = real]
  by (simp add: thumb_side_h_def)

text \<open>
  Claim C5. When discovery returns \<open>N \<ge> 1\<close> images, \<open>populate\<close> returns, the grid holds
  \<open>N\<close> cells and every cell has the same fixed side, \<open>thumb_side\<close>, which is the smaller
  of \<open>floor ((available_w - (cols - 1) * spacing) / cols)\<close> and
  \<open>floor ((available_h - (rows - 1) * spacing) / rows)\<close>; \<open>cols\<close> cells of that side and
  their spacing fit in the available width, and \<open>rows\<close> cells and their spacing in the
  available height.
\<close>

theorem thumbnails_uniform_and_fit:
  assumes "find_images fs (image_dir self) = Inr imgs" and "1 \<le> length imgs"
  shows "(\<exists>self'. populate fs self = Inr self'
            \<and> length (grid self') = length imgs
            \<and> (\<forall>cell \<in> set (grid self').
                 fixed_size (fst cell) = Some (thumb_side self (length imgs))))
       \<and> thumb_side self (length imgs) =
           min \<lfloor>real_of_int (available_w self - (int (grid_cols (length imgs)) - 1) * spacing self)
                  / real (grid_cols (length imgs))\<rfloor>
               \<lfloor>real_of_int (available_h self - (int (grid_rows (length imgs)) - 1) * spacing self)
                  / real (grid_rows (length imgs))\<rfloor>
       \<and> thumb_side self (length imgs) * int (grid_cols (length imgs))
           + (int (grid_cols (length imgs)) - 1) * spacing self
           \<le> available_w self
       \<and> thumb_side self (length imgs) * int (grid_rows (length imgs))
           + (int (grid_rows (length imgs)) - 1) * spacing self
           \<le> available_h self"
proof -
  let ?n = "length imgs"
  have ne: "imgs \<noteq> []" using assms(2) by (cases imgs) simp_all
  then have n: "0 < ?n" by simp
  let ?self' = "self\<lparr>images := imgs,
      grid := map (\<lambda>(idx, imgpath).
                     (thumb_button fs (thumb_side self ?n) imgpath,
                      idx div grid_cols ?n, idx mod grid_cols ?n))
                (enumerate 0 imgs)\<rparr>"
  have p: "populate fs self = Inr ?self'"
    using assms(1) ne by (rule populate_nonempty)
  have cells: "length (grid ?self') = ?n"
    by simp
  have uniform: "\<forall>cell \<in> set (grid ?self'). fixed_size (fst cell) = Some (thumb_side self ?n)"
    by (auto simp add: thumb_button_def)
  have widget: "\<exists>self'. populate fs self = Inr self'
      \<and> length (grid self') = ?n
      \<and> (\<forall>cell \<in> set (grid self'). fixed_size (fst cell) = Some (thumb_side self ?n))"
    using p cells uniform by blast
  have formula: "thumb_side self ?n =
      min \<lfloor>real_of_int (available_w self - (int (grid_cols ?n) - 1) * spacing self)
             / real (grid_cols ?n)\<rfloor>
          \<lfloor>real_of_int (available_h self - (int (grid_rows ?n) - 1) * spacing self)
             / real (grid_rows ?n)\<rfloor>"
    by (simp only: thumb_side_def thumb_side_w_floor thumb_side_h_floor)
  have "thumb_side self ?n * int (grid_cols ?n) \<le> thumb_side_w self (grid_cols ?n) * int (grid_cols ?n)"
    by (intro mult_right_mono) (simp_all add: thumb_side_def)
  then have w: "thumb_side self ?n * int (grid_cols ?n) + (int (grid_cols ?n) - 1) * spacing self
      \<le> available_w self"
    using thumb_side_w_fits [OF grid_cols_pos [OF n], of self] by linarith
  have "thumb_side self ?n * int (grid_rows ?n) \<le> thumb_side_h self (grid_rows ?n) * int (grid_rows ?n)"
    by (intro mult_right_mono) (simp_all add: thumb_side_def)
  then have h: "thumb_side self ?n * int (grid_rows ?n) + (int (grid_rows ?n) - 1) * spacing self
      \<le> available_h self"
    using thumb_side_h_fits [OF grid_rows_pos [OF n], of self] by linarith
  show ?thesis
    using widget formula w h by (intro conjI)
qed

lemma ex_dir: "image_dir (example_picker d) = d"
  by (simp add: example_picker_def)

lemma ex_thumb_side: "thumb_side (example_picker ''/w'') (Suc (Suc 0)) = 264"
  by (simp add: thumb_side_def thumb_side_w_def thumb_side_h_def available_w_def
      available_h_def grid_cols_two grid_rows_two example_picker_def)

lemma ex_populate:
  "populate example_fs (example_picker ''/w'') =
   Inr ((example_picker ''/w'')
     \<lparr>images := [''/w/A.JPG'', ''/w/b.png''],
      grid := [(thumb_button example_fs 264 ''/w/A.JPG'', 0, 0),
               (thumb_button example_fs 264 ''/w/b.png'', 0, 1)]\<rparr>)"
proof -
  have f: "find_images example_fs (image_dir (example_picker ''/w''))
      = Inr [''/w/A.JPG'', ''/w/b.png'']"
    by (simp add: ex_dir ex_find)
  have ne: "[''/w/A.JPG'', ''/w/b.png''] \<noteq> ([] :: string list)" by simp
  show ?thesis
    by (simp add: populate_nonempty [OF f ne] ex_thumb_side grid_cols_two)
qed

theorem thumbnails_uniform_and_fit_witness:
  "find_images example_fs (image_dir (example_picker ''/w'')) = Inr [''/w/A.JPG'', ''/w/b.png'']
   \<and> 1 \<le> length [''/w/A.JPG'', ''/w/b.png'']
   \<and> (\<exists>self'. populate example_fs (example_picker ''/w'') = Inr self'
         \<and> length (grid self') = 2
         \<and> map (\<lambda>cell. fixed_size (fst cell)) (grid self') = [Some 264, Some 264])
   \<and> thumb_side (example_picker ''/w'') (length [''/w/A.JPG'', ''/w/b.png'']) = 264
   \<and> (264::int) * 2 + (2 - 1) * 4 \<le> available_w (example_picker ''/w'')
   \<and> (264::int) * 1 + (1 - 1) * 4 \<le> available_h (example_picker ''/w'')"
proof -
  have f: "find_images example_fs (image_dir (example_picker ''/w''))
      = Inr [''/w/A.JPG'', ''/w/b.png'']"
    by (simp add: ex_dir ex_find)
  have l: "1 \<le> length [''/w/A.JPG'', ''/w/b.png'']"
    by simp
  have cells: "\<exists>self'. populate example_fs (example_picker ''/w'') = Inr self'
      \<and> length (grid self') = 2
      \<and> map (\<lambda>cell. fixed_size (fst cell)) (grid self') = [Some 264, Some 264]"
    by (simp add: ex_populate thumb_button_def)
  have side: "thumb_side (example_picker ''/w'') (length [''/w/A.JPG'', ''/w/b.png'']) = 264"
    by (simp add: ex_thumb_side)
  have fits: "(264::int) * 2 + (2 - 1) * 4 \<le> available_w (example_picker ''/w'')
      \<and> (264::int) * 1 + (1 - 1) * 4 \<le> available_h (example_picker ''/w'')"
    using thumbnails_uniform_and_fit [OF f l]
    by (simp add: ex_thumb_side grid_cols_two grid_rows_two available_w_def available_h_def
        example_picker_def)
  show ?thesis
    using f l cells side fits by (intro conjI) simp_all
qed

text \<open>
  Claim C6. When discovery returns no image, \<open>populate\<close> returns and leaves the grid
  with exactly one cell, at row 0 and column 0: a button that is disabled, carries the
  text \<open>No images found\<close> followed by the directory, and has no icon and no click action;
  the list of images is empty. Whatever the grid held before is gone.
\<close>

theorem no_images_placeholder:
  assumes "find_images fs (image_dir self) = Inr imgs" and "length imgs = 0"
  shows "\<exists>self' b. populate fs self = Inr self'
           \<and> grid self' = [(b, 0, 0)]
           \<and> enabled b = False
           \<and> label b = ''No images found'' @ [CHR 0x0A] @ image_dir self
           \<and> icon_size b = None \<and> clicked b = None
           \<and> images self' = []"
proof -
  have e: "find_images fs (image_dir self) = Inr []" using assms by simp
  show ?thesis
    by (simp add: populate_empty [OF e] placeholder_button_def)
qed

theorem no_images_placeholder_witness:
  "find_images example_fs (image_dir (example_picker ''/nowhere'')) = Inr []
   \<and> length ([] :: string list) = 0
   \<and> (\<exists>self'. populate example_fs (example_picker ''/nowhere'') = Inr self'
         \<and> length (grid self') = 1
         \<and> map (\<lambda>cell. enabled (fst cell)) (grid self') = [False]
         \<and> images self' = [])"
proof -
  have f: "find_images example_fs (image_dir (example_picker ''/nowhere'')) = Inr []"
    by (simp add: ex_dir ex_find_missing)
  have l: "length ([] :: string list) = 0" by simp
  have "\<exists>self'. populate example_fs (example_picker ''/nowhere'') = Inr self'
      \<and> length (grid self') = 1
      \<and> map (\<lambda>cell. enabled (fst cell)) (grid self') = [False]
      \<and> images self' = []"
    using no_images_placeholder [OF f l] by auto
  then show ?thesis
    using f l by (intro conjI)
qed

text \<open>
  Claim C8. Refresh is idempotent: on the same file system a second refresh leaves the
  widget as the first one did (the same images, and the same grid cell by cell, so the
  same rows, columns and thumbnail side), and the result of a refresh does not depend on
  the images and the grid the widget held before. A refresh whose discovery raises
  touches nothing and raises the same again.
\<close>

theorem refresh_idempotent:
  "and_then (refresh fs self) (refresh fs) = refresh fs self
   \<and> (\<forall>self'. refresh fs self = Inr self' \<longrightarrow> refresh fs self' = Inr self')
   \<and> refresh fs (self\<lparr>images := imgs, grid := g\<rparr>) = refresh fs self"
proof -
  have a: "and_then (refresh fs self) (refresh fs) = refresh fs self"
    using populate_populate [of fs self] by (simp add: refresh_def [abs_def])
  have b: "\<forall>self'. refresh fs self = Inr self' \<longrightarrow> refresh fs self' = Inr self'"
    using a by (auto simp add: and_then_def)
  have c: "refresh fs (self\<lparr>images := imgs, grid := g\<rparr>) = refresh fs self"
    by (simp add: refresh_def populate_frame)
  show ?thesis
    using a b c by (intro conjI)
qed

theorem refresh_idempotent_witness:
  "(\<exists>self'. refresh example_fs (example_picker ''/w'') = Inr self'
       \<and> refresh example_fs self' = Inr self'
       \<and> images self' = [''/w/A.JPG'', ''/w/b.png'']
       \<and> map snd (grid self') = [(0, 0), (0, 1)])"
proof -
  have r: "refresh example_fs (example_picker ''/w'') =
      Inr ((example_picker ''/w'')
        \<lparr>images := [''/w/A.JPG'', ''/w/b.png''],
         grid := [(thumb_button example_fs 264 ''/w/A.JPG'', 0, 0),
                  (thumb_button example_fs 264 ''/w/b.png'', 0, 1)]\<rparr>)"
    by (simp add: refresh_def ex_populate)
  show ?thesis
    using refresh_idempotent [of example_fs "example_picker ''/w''"] r by simp
qed

section \<open>The accent colour\<close>

lemma commands_append: "commands (t @ u) = commands t @ commands u"
  by (induction t rule: commands.induct) simp_all

lemma border_string_slot:
  assumes "palette_slot (wal_colors env) = Some (JStr s)"
  shows "commands (snd (set_hyprland_border_from_wal env))
         = [[''hyprctl'', ''keyword'', ''col.active_border'', ''0x'' @ str_upper (str_lstrip ''#'' s)]]
       \<and> fst (set_hyprland_border_from_wal env) \<noteq> Raises e"
  using assms
  by (cases "procs env [''hyprctl'', ''keyword'', ''col.active_border'',
        ''0x'' @ str_upper (str_lstrip ''#'' s)]")
    (auto simp add: palette_slot_def set_hyprland_border_from_wal_def palette_exists_def
      json_load_def getitem_def lstrip_def seq_def try_except_def subprocess_run_def
      split: palette_file.splits json.splits option.splits)

lemma border_no_string_slot:
  assumes "wal_colors env \<noteq> NoHome" and "wal_colors env \<noteq> Inaccessible"
    and "\<forall>s. palette_slot (wal_colors env) \<noteq> Some (JStr s)"
  shows "commands (snd (set_hyprland_border_from_wal env)) = []
       \<and> fst (set_hyprland_border_from_wal env) = Returns ()
       \<and> length (snd (set_hyprland_border_from_wal env)) \<le> 1"
  using assms
  by (auto simp add: palette_slot_def set_hyprland_border_from_wal_def palette_exists_def
      json_load_def getitem_def lstrip_def seq_def try_except_def
      split: palette_file.splits json.splits option.splits)

lemma border_no_home:
  assumes "wal_colors env = NoHome"
  shows "set_hyprland_border_from_wal env = (Raises RuntimeError, [])"
  using assms by (simp add: set_hyprland_border_from_wal_def palette_exists_def seq_def)

lemma border_inaccessible:
  assumes "wal_colors env = Inaccessible"
  shows "set_hyprland_border_from_wal env = (Raises PermissionError, [])"
  using assms by (simp add: set_hyprland_border_from_wal_def palette_exists_def seq_def)

text \<open>
  Claim C7, as amended. Provided the home directory can be determined and the palette
  path can be examined, the accent-colour step lets no exception escape. When the palette
  file is absent, cannot be opened or is malformed, when its document has no slot
  \<open>color4\<close> under \<open>colors\<close>, or when that slot holds something other than a string, no
  command is started, the step returns, and it prints at most one line. When the slot
  holds a string, exactly one command is started: \<open>hyprctl keyword col.active_border\<close>
  with the slot's value formatted. The existence test comes before the \<open>try\<close>: when the
  home directory cannot be determined or the palette path may not be examined, no command
  is started and the \<open>RuntimeError\<close> or \<open>PermissionError\<close> of the test leaves the step.
\<close>

theorem border_step_contract:
  "(wal_colors env \<noteq> NoHome \<and> wal_colors env \<noteq> Inaccessible
       \<longrightarrow> (\<forall>e. fst (set_hyprland_border_from_wal env) \<noteq> Raises e))
   \<and> (wal_colors env \<in> {Absent, Unreadable, Malformed}
        \<or> (\<exists>d. wal_colors env = Document d \<and> palette_slot (wal_colors env) = None)
        \<or> (\<exists>v. palette_slot (wal_colors env) = Some v \<and> (\<forall>s. v \<noteq> JStr s))
       \<longrightarrow> commands (snd (set_hyprland_border_from_wal env)) = []
           \<and> fst (set_hyprland_border_from_wal env) = Returns ()
           \<and> length (snd (set_hyprland_border_from_wal env)) \<le> 1)
   \<and> (\<forall>s. palette_slot (wal_colors env) = Some (JStr s)
       \<longrightarrow> commands (snd (set_hyprland_border_from_wal env))
           = [[''hyprctl'', ''keyword'', ''col.active_border'',
               ''0x'' @ str_upper (str_lstrip ''#'' s)]])
   \<and> (wal_colors env = NoHome
       \<longrightarrow> set_hyprland_border_from_wal env = (Raises RuntimeError, []))
   \<and> (wal_colors env = Inaccessible
       \<longrightarrow> set_hyprland_border_from_wal env = (Raises PermissionError, []))"
proof -
  let ?run = "set_hyprland_border_from_wal env"
  have raises: "wal_colors env \<noteq> NoHome \<and> wal_colors env \<noteq> Inaccessible
      \<longrightarrow> (\<forall>e. fst ?run \<noteq> Raises e)"
  proof (intro impI allI)
    fix e
    assume ok: "wal_colors env \<noteq> NoHome \<and> wal_colors env \<noteq> Inaccessible"
    show "fst ?run \<noteq> Raises e"
    proof (cases "\<exists>s. palette_slot (wal_colors env) = Some (JStr s)")
      case True
      then show ?thesis using border_string_slot by blast
    next
      case False
      then have "\<forall>s. palette_slot (wal_colors env) \<noteq> Some (JStr s)" by blast
      with ok have "fst ?run = Returns ()"
        using border_no_string_slot by blast
      then show ?thesis by simp
    qed
  qed
  have none: "wal_colors env \<in> {Absent, Unreadable, Malformed}
        \<or> (\<exists>d. wal_colors env = Document d \<and> palette_slot (wal_colors env) = None)
        \<or> (\<exists>v. palette_slot (wal_colors env) = Some v \<and> (\<forall>s. v \<noteq> JStr s))
      \<longrightarrow> commands (snd ?run) = [] \<and> fst ?run = Returns () \<and> length (snd ?run) \<le> 1"
  proof
    assume a: "wal_colors env \<in> {Absent, Unreadable, Malformed}
        \<or> (\<exists>d. wal_colors env = Document d \<and> palette_slot (wal_colors env) = None)
        \<or> (\<exists>v. palette_slot (wal_colors env) = Some v \<and> (\<forall>s. v \<noteq> JStr s))"
    then have "\<forall>s. palette_slot (wal_colors env) \<noteq> Some (JStr s)"
      by (auto simp add: palette_slot_def)
    moreover from a have "wal_colors env \<noteq> NoHome" "wal_colors env \<noteq> Inaccessible"
      by (auto simp add: palette_slot_def)
    ultimately show "commands (snd ?run) = [] \<and> fst ?run = Returns () \<and> length (snd ?run) \<le> 1"
      using border_no_string_slot by blast
  qed
  have one: "\<forall>s. palette_slot (wal_colors env) = Some (JStr s)
      \<longrightarrow> commands (snd ?run)
          = [[''hyprctl'', ''keyword'', ''col.active_border'', ''0x'' @ str_upper (str_lstrip ''#'' s)]]"
    using border_string_slot by blast
  have home: "wal_colors env = NoHome \<longrightarrow> ?run = (Raises RuntimeError, [])"
    using border_no_home by blast
  have denied: "wal_colors env = Inaccessible \<longrightarrow> ?run = (Raises PermissionError, [])"
    using border_inaccessible by blast
  show ?thesis
    using raises none one home denied by (intro conjI)
qed

lemma example_slot: "palette_slot (Document example_palette) = Some (JStr ''#aabbcc'')"
  by (simp add: palette_slot_def example_palette_def BORDER_COLOR_def)

lemma upper_aabbcc: "str_upper (str_lstrip ''#'' ''#aabbcc'') = ''AABBCC''"
  by (simp add: str_upper_def str_lstrip_def upper_char_def)

theorem border_step_contract_witness:
  "palette_slot (wal_colors hypr_env) = Some (JStr ''#aabbcc'')
   \<and> commands (snd (set_hyprland_border_from_wal hypr_env))
       = [[''hyprctl'', ''keyword'', ''col.active_border'', ''0xAABBCC'']]
   \<and> wal_colors bare_env \<in> {Absent, Unreadable, Malformed}
   \<and> commands (snd (set_hyprland_border_from_wal bare_env)) = []
   \<and> fst (set_hyprland_border_from_wal bare_env) = Returns ()
   \<and> wal_colors locked_cache_env = Inaccessible
   \<and> set_hyprland_border_from_wal locked_cache_env = (Raises PermissionError, [])"
proof -
  have a: "palette_slot (wal_colors hypr_env) = Some (JStr ''#aabbcc'')"
    by (simp add: hypr_env_def example_slot)
  have b: "wal_colors bare_env \<in> {Absent, Unreadable, Malformed}"
    by (simp add: bare_env_def)
  have "commands (snd (set_hyprland_border_from_wal hypr_env))
      = [[''hyprctl'', ''keyword'', ''col.active_border'',
          ''0x'' @ str_upper (str_lstrip ''#'' ''#aabbcc'')]]"
    using border_step_contract [of hypr_env] a by blast
  then have c: "commands (snd (set_hyprland_border_from_wal hypr_env))
      = [[''hyprctl'', ''keyword'', ''col.active_border'', ''0xAABBCC'']]"
    by (simp add: upper_aabbcc)
  have d: "commands (snd (set_hyprland_border_from_wal bare_env)) = []
      \<and> fst (set_hyprland_border_from_wal bare_env) = Returns ()"
    using border_step_contract [of bare_env] b by blast
  have e: "wal_colors locked_cache_env = Inaccessible"
    by (simp add: locked_cache_env_def)
  have f: "set_hyprland_border_from_wal locked_cache_env = (Raises PermissionError, [])"
    using border_step_contract [of locked_cache_env] e by blast
  show ?thesis
    using a b c d e f by (intro conjI) simp_all
qed

text \<open>
  Claim C7 as stated fails twice. A palette file that is present, is well-formed JSON and
  has the slot \<open>color4\<close>, holding the number 4, makes the step start no command; the
  \<open>AttributeError\<close> of \<open>lstrip\<close> is caught and printed. And a palette file in a
  directory that may not be searched makes the existence test raise \<open>PermissionError\<close>,
  which leaves the step.
\<close>

theorem border_step_number_counterexample:
  "palette_slot (wal_colors number_slot_env) = Some (JNum 4)
   \<and> set_hyprland_border_from_wal number_slot_env
       = (Returns (), [Print ''Failed to set Hyprland border color:'' (Some AttributeError)])
   \<and> set_hyprland_border_from_wal locked_cache_env = (Raises PermissionError, [])"
  by (simp add: number_slot_env_def locked_cache_env_def palette_slot_def BORDER_COLOR_def
      set_hyprland_border_from_wal_def palette_exists_def json_load_def getitem_def lstrip_def
      seq_def try_except_def)

lemma str_lstrip_hashes:
  assumes "rest = [] \<or> hd rest \<noteq> CHR ''#''"
  shows "str_lstrip ''#'' (replicate k CHR ''#'' @ rest) = rest"
proof -
  have "dropWhile (\<lambda>c. c \<in> set ''#'') (replicate k CHR ''#'' @ rest)
        = dropWhile (\<lambda>c. c \<in> set ''#'') rest"
    by (rule dropWhile_append2) simp
  also have "\<dots> = rest"
    using assms by (cases rest) simp_all
  finally show ?thesis by (simp only: str_lstrip_def)
qed

lemma leading_hashes:
  "\<exists>k rest. s = replicate k CHR ''#'' @ rest \<and> (rest = [] \<or> hd rest \<noteq> CHR ''#'')"
proof (induction s)
  case Nil
  have "[] = replicate 0 CHR ''#'' @ [] \<and> ([] = [] \<or> hd [] \<noteq> CHR ''#'')" by simp
  then show ?case by blast
next
  case (Cons c s)
  show ?case
  proof (cases "c = CHR ''#''")
    case True
    from Cons obtain k rest where "s = replicate k CHR ''#'' @ rest"
      and "rest = [] \<or> hd rest \<noteq> CHR ''#''" by blast
    then have "c # s = replicate (Suc k) CHR ''#'' @ rest \<and> (rest = [] \<or> hd rest \<noteq> CHR ''#'')"
      using True by simp
    then show ?thesis by blast
  next
    case False
    then have "c # s = replicate 0 CHR ''#'' @ (c # s)
        \<and> (c # s = [] \<or> hd (c # s) \<noteq> CHR ''#'')" by simp
    then show ?thesis by blast
  qed
qed

text \<open>
  Claim C10. The token sent to the window manager is the slot's value with every leading
  \<open>#\<close> stripped, the rest in upper case (the hex digits \<open>a\<close> to \<open>f\<close> become \<open>A\<close> to
  \<open>F\<close>, the others stay, and the length is kept), after the prefix \<open>0x\<close>.
\<close>

theorem border_token_format:
  assumes "palette_slot (wal_colors env) = Some (JStr (replicate k CHR ''#'' @ rest))"
    and "rest = [] \<or> hd rest \<noteq> CHR ''#''"
  shows "commands (snd (set_hyprland_border_from_wal env))
         = [[''hyprctl'', ''keyword'', ''col.active_border'', ''0x'' @ str_upper rest]]
       \<and> length (str_upper rest) = length rest
       \<and> str_upper ''0123456789abcdefABCDEF'' = ''0123456789ABCDEFABCDEF''"
proof -
  have "commands (snd (set_hyprland_border_from_wal env))
      = [[''hyprctl'', ''keyword'', ''col.active_border'',
          ''0x'' @ str_upper (str_lstrip ''#'' (replicate k CHR ''#'' @ rest))]]"
    using border_string_slot [OF assms(1)] by simp
  then have "commands (snd (set_hyprland_border_from_wal env))
      = [[''hyprctl'', ''keyword'', ''col.active_border'', ''0x'' @ str_upper rest]]"
    by (simp only: str_lstrip_hashes [OF assms(2)])
  moreover have "length (str_upper rest) = length rest"
    by (simp add: str_upper_def)
  moreover have "str_upper ''0123456789abcdefABCDEF'' = ''0123456789ABCDEFABCDEF''"
    by (simp add: str_upper_def upper_char_def)
  ultimately show ?thesis by (intro conjI)
qed

theorem border_token_format_witness:
  "palette_slot (wal_colors hypr_env) = Some (JStr (replicate 1 CHR ''#'' @ ''aabbcc''))
   \<and> (''aabbcc'' = [] \<or> hd ''aabbcc'' \<noteq> CHR ''#'')
   \<and> commands (snd (set_hyprland_border_from_wal hypr_env))
       = [[''hyprctl'', ''keyword'', ''col.active_border'', ''0xAABBCC'']]"
proof -
  have a: "palette_slot (wal_colors hypr_env) = Some (JStr (replicate 1 CHR ''#'' @ ''aabbcc''))"
    by (simp add: hypr_env_def example_slot)
  have b: "''aabbcc'' = [] \<or> hd ''aabbcc'' \<noteq> CHR ''#''"
    by simp
  have "str_upper ''aabbcc'' = ''AABBCC''"
    by (simp add: str_upper_def upper_char_def)
  then show ?thesis
    using border_token_format [OF a b] a b by simp
qed

section \<open>The dispatcher\<close>

text \<open>
  Claim C2 fails on the code. With \<open>wal\<close> not installed, the first step raises
  \<open>FileNotFoundError\<close> out of \<open>on_select\<close> and none of the four later steps is tried.
  The same failure in the steps for \<open>walcord\<close> and \<open>spicetify\<close> is caught: with
  neither installed, all five steps are tried and \<open>on_select\<close> returns.
\<close>

theorem on_select_without_wal:
  "on_select no_wal_env ''/w/a.png''
     = (Raises FileNotFoundError, [Exec [''wal'', ''-i'', ''/w/a.png'']])
   \<and> on_select hypr_env ''/w/a.png''
     = (Returns (),
        [Exec [''wal'', ''-i'', ''/w/a.png''],
         Exec [''walcord''],
         Exec [''swww'', ''img'', ''/w/a.png'', ''--output'', ''all''],
         Exec [''hyprpaper'', ''--set'', ''/w/a.png''],
         Exec [''hyprctl'', ''keyword'', ''col.active_border'', ''0xAABBCC''],
         Exec [''spicetify'', ''apply''],
         Print ''Spicetify not installed, skipping...'' None])"
proof -
  have a: "on_select no_wal_env ''/w/a.png''
      = (Raises FileNotFoundError, [Exec [''wal'', ''-i'', ''/w/a.png'']])"
    by (simp add: on_select_def Popen_def seq_def no_wal_env_def installed_def)
  have w: "set_wallpaper_wayland hypr_env ''/w/a.png''
      = (Returns True, [Exec [''swww'', ''img'', ''/w/a.png'', ''--output'', ''all''],
                        Exec [''hyprpaper'', ''--set'', ''/w/a.png'']])"
  proof -
    have "\<not> succeeds hypr_env [''swww'', ''img'', ''/w/a.png'', ''--output'', ''all'']"
      using hypr_env_swww succeeds_not_fails by blast
    then show ?thesis
      by (simp add: set_wallpaper_wayland_try_each backends_def hypr_env_swww hypr_env_hyprpaper)
  qed
  have h: "set_hyprland_border_from_wal hypr_env
      = (Returns (), [Exec [''hyprctl'', ''keyword'', ''col.active_border'', ''0xAABBCC'']])"
    by (simp add: hypr_env_def example_palette_def BORDER_COLOR_def
        set_hyprland_border_from_wal_def palette_exists_def json_load_def getitem_def
        lstrip_def seq_def try_except_def subprocess_run_def installed_def str_upper_def
        str_lstrip_def upper_char_def)
  have p: "Popen hypr_env [''wal'', ''-i'', ''/w/a.png''] = (Returns (), [Exec [''wal'', ''-i'', ''/w/a.png'']])"
    "Popen hypr_env [''walcord''] = (Raises FileNotFoundError, [Exec [''walcord'']])"
    "Popen hypr_env [''spicetify'', ''apply''] = (Raises FileNotFoundError, [Exec [''spicetify'', ''apply'']])"
    by (simp_all add: Popen_def hypr_env_def installed_def)
  have b: "on_select hypr_env ''/w/a.png''
      = (Returns (),
        [Exec [''wal'', ''-i'', ''/w/a.png''],
         Exec [''walcord''],
         Exec [''swww'', ''img'', ''/w/a.png'', ''--output'', ''all''],
         Exec [''hyprpaper'', ''--set'', ''/w/a.png''],
         Exec [''hyprctl'', ''keyword'', ''col.active_border'', ''0xAABBCC''],
         Exec [''spicetify'', ''apply''],
         Print ''Spicetify not installed, skipping...'' None])"
    by (simp add: on_select_def w h p seq_def try_except_def)
  show ?thesis
    using a b by (intro conjI)
qed

end
